theory Spec2Isabelle
  imports Complex_Main "HOL-Library.AList"
begin

section \<open>Values, errors and the library boundary\<close>

text \<open>
  The program is \<^verbatim>\<open>dist/tools/usb-serial/ttys.py\<close>. A TTY is a Python \<^verbatim>\<open>dict\<close> from field
  names to values that are \<^verbatim>\<open>None\<close>, a \<^verbatim>\<open>str\<close> or a \<^verbatim>\<open>float\<close>. A dict keeps insertion order
  and has one entry per key, so it is an association list read with \<^const>\<open>map_of\<close> and
  written with \<^const>\<open>AList.update\<close> (replace in place, else append). A finite float is
  a rational number, and the order on finite floats is the order on the rationals.
  Strings are lists of 8-bit characters.
\<close>

datatype pyval = PNone | PStr string | PFloat rat

type_synonym tty = "(string \<times> pyval) list"

datatype error =
  TypeError | ValueError | KeyError | AttributeError | IndexError | OSError | ReError

text \<open>
  What the program calls outside its own file: \<^verbatim>\<open>os.stat(p).st_ctime\<close>, the two codec
  steps of \<^verbatim>\<open>unescape\<close>, \<^verbatim>\<open>int(str)\<close>, the local-time formatting
  \<^verbatim>\<open>time.strftime("%H:%M:%S", time.localtime(t))\<close>, the clock that
  \<^verbatim>\<open>time.localtime(None)\<close> reads, \<^verbatim>\<open>repr\<close> of a float, and \<^verbatim>\<open>re.compile\<close> on patterns
  beyond the fragment modelled below. They are parameters of the model.
\<close>

record pylib =
  os_stat_ctime :: "string \<Rightarrow> error + rat"
  decode_unicode_escape :: "string \<Rightarrow> error + string"
  latin1_as_utf8 :: "string \<Rightarrow> error + string"
  int_of_str :: "string \<Rightarrow> error + int"
  strftime_HMS :: "rat \<Rightarrow> string"
  time_now :: rat
  float_repr :: "rat \<Rightarrow> string"
  re_compile_other :: "string \<Rightarrow> error + (string \<Rightarrow> bool)"

subsection \<open>Built-ins of the language\<close>

text \<open>\<^verbatim>\<open>d[key]\<close>: the value, or KeyError.\<close>

definition getitem :: "tty \<Rightarrow> string \<Rightarrow> error + pyval" where
  "getitem d k = (case map_of d k of None \<Rightarrow> Inl KeyError | Some v \<Rightarrow> Inr v)"

text \<open>\<^verbatim>\<open>str(n)\<close> of an int: decimal digits, a minus sign for a negative number.\<close>

definition digit_char :: "nat \<Rightarrow> char" where
  "digit_char d = ''0123456789'' ! d"

fun str_nat :: "nat \<Rightarrow> string" where
  "str_nat n = (if n < 10 then [digit_char n] else str_nat (n div 10) @ [digit_char (n mod 10)])"

declare str_nat.simps [simp del]

definition str_int :: "int \<Rightarrow> string" where
  "str_int i = (if i < 0 then CHR ''-'' # str_nat (nat (- i)) else str_nat (nat i))"

text \<open>\<^verbatim>\<open>str(v)\<close> of a field value.\<close>

definition py_str :: "pylib \<Rightarrow> pyval \<Rightarrow> string" where
  "py_str L v = (case v of PNone \<Rightarrow> ''None'' | PStr s \<Rightarrow> s | PFloat x \<Rightarrow> float_repr L x)"

text \<open>\<^verbatim>\<open>len(v)\<close>: only a string has a length.\<close>

definition py_len :: "pyval \<Rightarrow> error + nat" where
  "py_len v = (case v of PStr s \<Rightarrow> Inr (length s) | _ \<Rightarrow> Inl TypeError)"

text \<open>\<^verbatim>\<open>s.rfind(sub)\<close>: the highest index where \<open>sub\<close> starts in \<open>s\<close>, or \<open>-1\<close>.\<close>

definition rfind :: "string \<Rightarrow> string \<Rightarrow> int" where
  "rfind s sub =
     (if length sub \<le> length s
      then (case filter (\<lambda>i. take (length sub) (drop i s) = sub)
                   (rev [0..<Suc (length s - length sub)]) of
              [] \<Rightarrow> - 1
            | i # _ \<Rightarrow> int i)
      else - 1)"

text \<open>\<^verbatim>\<open>a > b\<close>: floats by value, strings by code points, anything else is a TypeError.\<close>

fun str_gt :: "string \<Rightarrow> string \<Rightarrow> bool" where
  "str_gt [] _ = False"
| "str_gt (a # as) [] = True"
| "str_gt (a # as) (b # bs) =
     (of_char a > (of_char b :: nat) \<or> (a = b \<and> str_gt as bs))"

definition py_gt :: "pyval \<Rightarrow> pyval \<Rightarrow> error + bool" where
  "py_gt a b =
     (case (a, b) of
        (PFloat x, PFloat y) \<Rightarrow> Inr (x > y)
      | (PStr s, PStr t) \<Rightarrow> Inr (str_gt s t)
      | _ \<Rightarrow> Inl TypeError)"

text \<open>
  \<^verbatim>\<open>str.split()\<close> without arguments: the maximal runs of non-whitespace characters.
  Whitespace, among the code points below 256, is what \<^verbatim>\<open>str.isspace\<close> accepts.
\<close>

definition is_space :: "char \<Rightarrow> bool" where
  "is_space c = (of_char c \<in> {9, 10, 11, 12, 13, 28, 29, 30, 31, 32, 133, 160 :: nat})"

fun split_ws :: "string \<Rightarrow> string \<Rightarrow> string list" where
  "split_ws w [] = (if w = [] then [] else [w])"
| "split_ws w (c # cs) =
     (if is_space c then (if w = [] then split_ws [] cs else w # split_ws [] cs)
      else split_ws (w @ [c]) cs)"

definition py_split :: "string \<Rightarrow> string list" where
  "py_split s = split_ws [] s"

text \<open>
  \<^verbatim>\<open>f"{s:{w}}"\<close> for a string and a positive width: left-justified, padded with spaces
  to width \<open>w\<close>. The widths of the table are at least the header lengths, which are
  positive.
\<close>

definition pad :: "string \<Rightarrow> nat \<Rightarrow> string" where
  "pad s w = s @ replicate (w - length s) CHR '' ''"

subsection \<open>\<^verbatim>\<open>json.dumps\<close>\<close>

text \<open>
  With the default \<^verbatim>\<open>ensure_ascii\<close>, a string is put in double quotes; the quote and the
  backslash get a backslash, the five short escapes are used, and every other character
  outside space..tilde becomes \<^verbatim>\<open>\u00xx\<close> (lower-case hex).
\<close>

definition hex_digit :: "nat \<Rightarrow> char" where
  "hex_digit d = ''0123456789abcdef'' ! d"

definition json_escape_char :: "char \<Rightarrow> string" where
  "json_escape_char c =
     (if c = CHR 0x22 then [CHR 0x5C, CHR 0x22]
      else if c = CHR 0x5C then [CHR 0x5C, CHR 0x5C]
      else if c = CHR 0x0A then [CHR 0x5C, CHR ''n'']
      else if c = CHR 0x0D then [CHR 0x5C, CHR ''r'']
      else if c = CHR 0x09 then [CHR 0x5C, CHR ''t'']
      else if c = CHR 0x08 then [CHR 0x5C, CHR ''b'']
      else if c = CHR 0x0C then [CHR 0x5C, CHR ''f'']
      else if 32 \<le> (of_char c :: nat) \<and> (of_char c :: nat) \<le> 126 then [c]
      else [CHR 0x5C, CHR ''u'', CHR ''0'', CHR ''0'',
            hex_digit (of_char c div 16), hex_digit (of_char c mod 16)])"

definition json_dumps_str :: "string \<Rightarrow> string" where
  "json_dumps_str s = CHR 0x22 # concat (map json_escape_char s) @ [CHR 0x22]"

definition json_value :: "pylib \<Rightarrow> pyval \<Rightarrow> string" where
  "json_value L v =
     (case v of PNone \<Rightarrow> ''null'' | PStr s \<Rightarrow> json_dumps_str s | PFloat x \<Rightarrow> float_repr L x)"

text \<open>\<^verbatim>\<open>sep.join(xs)\<close>.\<close>

fun join :: "string \<Rightarrow> string list \<Rightarrow> string" where
  "join sep [] = []"
| "join sep [x] = x"
| "join sep (x # y # ys) = x @ sep @ join sep (y # ys)"

text \<open>\<^verbatim>\<open>json.dumps(ttys, indent=2)\<close> for a list of dicts.\<close>

definition json_dict :: "pylib \<Rightarrow> tty \<Rightarrow> string" where
  "json_dict L d =
     (if d = [] then ''{}''
      else ''{'' @ [CHR 0x0A]
        @ join ('','' @ [CHR 0x0A])
            (map (\<lambda>(k, v). ''    '' @ json_dumps_str k @ '': '' @ json_value L v) d)
        @ [CHR 0x0A] @ ''  }'')"

definition json_dumps :: "pylib \<Rightarrow> tty list \<Rightarrow> string" where
  "json_dumps L ds =
     (if ds = [] then ''[]''
      else ''['' @ [CHR 0x0A]
        @ join ('','' @ [CHR 0x0A]) (map (\<lambda>d. ''  '' @ json_dict L d) ds)
        @ [CHR 0x0A] @ '']'')"

section \<open>Attribute extraction: \<^verbatim>\<open>unescape\<close> and \<^verbatim>\<open>tty2dict\<close>\<close>

text \<open>A udev device: properties by key; \<^verbatim>\<open>dev.get(key)\<close> is \<^verbatim>\<open>None\<close> for an absent key.\<close>

type_synonym dev = "string \<rightharpoonup> string"

definition dev_get :: "dev \<Rightarrow> string \<Rightarrow> pyval" where
  "dev_get d k = (case d k of None \<Rightarrow> PNone | Some s \<Rightarrow> PStr s)"

text \<open>
  \<^verbatim>\<open>bytes(string, "utf8")\<close> raises TypeError unless \<open>string\<close> is a \<^verbatim>\<open>str\<close>; then the two
  codec steps run in turn.
\<close>

definition unescape :: "pylib \<Rightarrow> pyval \<Rightarrow> error + string" where
  "unescape L v =
     (case v of
        PStr s \<Rightarrow>
          (case decode_unicode_escape L s of
             Inl e \<Rightarrow> Inl e
           | Inr res \<Rightarrow> latin1_as_utf8 L res)
      | _ \<Rightarrow> Inl TypeError)"

text \<open>\<^verbatim>\<open>os.stat(path).st_ctime\<close> and \<^verbatim>\<open>int(x)\<close> on a value that may be \<^verbatim>\<open>None\<close>.\<close>

definition stat_ctime :: "pylib \<Rightarrow> pyval \<Rightarrow> error + rat" where
  "stat_ctime L v = (case v of PStr p \<Rightarrow> os_stat_ctime L p | _ \<Rightarrow> Inl TypeError)"

definition py_int :: "pylib \<Rightarrow> pyval \<Rightarrow> error + int" where
  "py_int L v = (case v of PStr s \<Rightarrow> int_of_str L s | _ \<Rightarrow> Inl TypeError)"

definition tty2dict :: "pylib \<Rightarrow> dev \<Rightarrow> error + tty" where
  "tty2dict L d =
     (let path = dev_get d ''DEVNAME'' in
      case stat_ctime L path of
        Inl e \<Rightarrow> Inl e
      | Inr ct \<Rightarrow>
     (case unescape L (dev_get d ''ID_MODEL_ENC'') of
        Inl e \<Rightarrow> Inl e
      | Inr model \<Rightarrow>
     (case unescape L (dev_get d ''ID_VENDOR_ENC'') of
        Inl e \<Rightarrow> Inl e
      | Inr vendor \<Rightarrow>
     (case py_int L (dev_get d ''ID_USB_INTERFACE_NUM'') of
        Inl e \<Rightarrow> Inl e
      | Inr n \<Rightarrow>
          Inr [(''path'', path),
               (''ctime'', PFloat ct),
               (''serial'', dev_get d ''ID_SERIAL_SHORT''),
               (''driver'', dev_get d ''ID_USB_DRIVER''),
               (''model'', PStr model),
               (''model_db'', dev_get d ''ID_MODEL_FROM_DATABASE''),
               (''vendor'', PStr vendor),
               (''vendor_db'', dev_get d ''ID_VENDOR_FROM_DATABASE''),
               (''iface_num'', PStr (str_int n))]))))"

section \<open>Regular expressions\<close>

text \<open>
  The fragment of \<^verbatim>\<open>re\<close> that the program's own pattern needs, with no flags set: a
  sequence of literal characters, \<^verbatim>\<open>.\<close> (any character but a newline), \<^verbatim>\<open>^\<close> (the start
  of the string) and \<^verbatim>\<open>$\<close> (the end of the string, or just before a newline that ends
  it). A backslash before a character that is no ASCII letter or digit makes that
  character a literal. Brackets, groups, repetition, alternation and the backslash
  classes are outside the fragment: \<open>re_parse\<close> gives \<open>None\<close> for them.
\<close>

datatype ritem = Lit char | AnyChar | Bol | Eol

definition is_ascii_alnum :: "char \<Rightarrow> bool" where
  "is_ascii_alnum c =
     (let n = (of_char c :: nat)
      in (48 \<le> n \<and> n \<le> 57) \<or> (65 \<le> n \<and> n \<le> 90) \<or> (97 \<le> n \<and> n \<le> 122))"

definition plain_item :: "char \<Rightarrow> ritem option" where
  "plain_item c =
     (if c = CHR ''^'' then Some Bol
      else if c = CHR ''$'' then Some Eol
      else if c = CHR ''.'' then Some AnyChar
      else if c \<in> set ''[{()*+?|'' then None
      else Some (Lit c))"

fun re_parse :: "string \<Rightarrow> ritem list option" where
  "re_parse [] = Some []"
| "re_parse [c] =
     (if c = CHR 0x5C then None
      else map_option (\<lambda>i. [i]) (plain_item c))"
| "re_parse (c # d # ds) =
     (if c = CHR 0x5C
      then (if is_ascii_alnum d then None
            else map_option (Cons (Lit d)) (re_parse ds))
      else (case plain_item c of
              None \<Rightarrow> None
            | Some i \<Rightarrow> map_option (Cons i) (re_parse (d # ds))))"

text \<open>
  \<^verbatim>\<open>regex.match(s)\<close>: the pattern is tried at the start of \<open>s\<close> only and need not reach
  its end. The flag says whether the position is the start of the string.
\<close>

fun re_match_at :: "ritem list \<Rightarrow> bool \<Rightarrow> string \<Rightarrow> bool" where
  "re_match_at [] st s = True"
| "re_match_at (Lit c # r) st [] = False"
| "re_match_at (Lit c # r) st (x # xs) = (x = c \<and> re_match_at r False xs)"
| "re_match_at (AnyChar # r) st [] = False"
| "re_match_at (AnyChar # r) st (x # xs) = (x \<noteq> CHR 0x0A \<and> re_match_at r False xs)"
| "re_match_at (Bol # r) st s = (st \<and> re_match_at r st s)"
| "re_match_at (Eol # r) st s = ((s = [] \<or> s = [CHR 0x0A]) \<and> re_match_at r st s)"

text \<open>
  A compiled pattern is its \<^verbatim>\<open>match\<close> test. A pattern of the fragment is compiled here,
  any other by the library.
\<close>

type_synonym pattern = "string \<Rightarrow> bool"

definition re_compile :: "pylib \<Rightarrow> string \<Rightarrow> error + pattern" where
  "re_compile L p =
     (case re_parse p of
        Some r \<Rightarrow> Inr (re_match_at r True)
      | None \<Rightarrow> re_compile_other L p)"

text \<open>
  \<^verbatim>\<open>re.escape\<close>: a backslash before each of
  \<^verbatim>\<open>()[]{}?*+-|^$\.&~#\<close>, the space, and tab, newline, carriage return, vertical tab and
  form feed.
\<close>

definition re_special :: "char \<Rightarrow> bool" where
  "re_special c =
     (c \<in> set ''()[]{}?*+-|^$.&~# ''
      \<or> c \<in> {CHR 0x5C, CHR 0x09, CHR 0x0A, CHR 0x0D, CHR 0x0B, CHR 0x0C})"

definition re_escape :: "string \<Rightarrow> string" where
  "re_escape s = concat (map (\<lambda>c. if re_special c then [CHR 0x5C, c] else [c]) s)"

section \<open>The filter engine: \<^verbatim>\<open>filters_match\<close> and \<^verbatim>\<open>generate_filters\<close>\<close>

type_synonym filter = "string \<times> pattern"

fun filters_match :: "filter list \<Rightarrow> tty \<Rightarrow> error + bool" where
  "filters_match [] tty = Inr True"
| "filters_match ((key, regex) # fs) tty =
     (case getitem tty key of
        Inl e \<Rightarrow> Inl e
      | Inr PNone \<Rightarrow> Inr False
      | Inr (PStr s) \<Rightarrow> (if \<not> regex s then Inr False else filters_match fs tty)
      | Inr (PFloat x) \<Rightarrow> Inl TypeError)"

text \<open>
  The parsed command line (the \<^verbatim>\<open>argparse\<close> namespace). \<open>exclude_serial\<close> is declared
  with \<^verbatim>\<open>nargs='*', default=None\<close>: it is \<^verbatim>\<open>None\<close> when the flag is absent and the list of
  the values, empty when there are none, when the flag is given. \<open>format\<close> is declared
  with \<^verbatim>\<open>nargs='+'\<close> and the default \<^verbatim>\<open>["table"]\<close>.
\<close>

record args =
  most_recent :: bool
  format :: "string list"
  format_sep :: string
  serial :: "string option"
  driver :: "string option"
  model :: "string option"
  model_db :: "string option"
  vendor :: "string option"
  vendor_db :: "string option"
  iface_num :: "string option"
  exclude_serial :: "string list option"

definition and_then :: "error + 'a \<Rightarrow> ('a \<Rightarrow> error + 'b) \<Rightarrow> error + 'b" where
  "and_then r f = (case r of Inl e \<Rightarrow> Inl e | Inr x \<Rightarrow> f x)"

text \<open>One \<^verbatim>\<open>if args.X is not None: result.append((key, re.compile(...)))\<close>.\<close>

definition append_filter ::
  "pylib \<Rightarrow> string \<Rightarrow> string option \<Rightarrow> filter list \<Rightarrow> error + filter list" where
  "append_filter L key opt result =
     (case opt of
        None \<Rightarrow> Inr result
      | Some p \<Rightarrow>
          (case re_compile L p of
             Inl e \<Rightarrow> Inl e
           | Inr regex \<Rightarrow> Inr (result @ [(key, regex)])))"

definition generate_filters :: "pylib \<Rightarrow> args \<Rightarrow> error + filter list" where
  "generate_filters L a =
     and_then (append_filter L ''serial''
                 (map_option (\<lambda>v. ''^'' @ re_escape v @ ''$'') (serial a)) [])
    (\<lambda>result. and_then (append_filter L ''driver'' (driver a) result)
    (\<lambda>result. and_then (append_filter L ''model'' (model a) result)
    (\<lambda>result. and_then (append_filter L ''model_db'' (model_db a) result)
    (\<lambda>result. and_then (append_filter L ''vendor'' (vendor a) result)
    (\<lambda>result. and_then (append_filter L ''vendor_db'' (vendor_db a) result)
    (\<lambda>result. append_filter L ''iface_num'' (iface_num a) result))))))"

section \<open>\<^verbatim>\<open>parse_args\<close>: format validation and the exclusion list\<close>

text \<open>
  \<^verbatim>\<open>sys.exit(arg)\<close> raises SystemExit. With an integer the process ends with that
  status and writes nothing; with a string the interpreter writes the string and a
  newline to standard error and the status is 1.
\<close>

datatype sys_exit = ExitCode int | ExitMsg string

datatype stderr_text = Quiet | Message string | Traceback error

fun exit_status :: "sys_exit \<Rightarrow> int" where
  "exit_status (ExitCode n) = n"
| "exit_status (ExitMsg m) = 1"

fun exit_stderr :: "sys_exit \<Rightarrow> stderr_text" where
  "exit_stderr (ExitCode n) = Quiet"
| "exit_stderr (ExitMsg m) = Message (m @ [CHR 0x0A])"

definition formats_combinable :: "string list" where
  "formats_combinable =
     [''path'', ''serial'', ''vendor'', ''vendor_db'', ''model'', ''model_db'',
      ''driver'', ''ctime'', ''iface_num'']"

definition formats_uncombinable :: "string list" where
  "formats_uncombinable = [''table'', ''json'']"

definition supported_formats :: "string list" where
  "supported_formats = formats_combinable @ formats_uncombinable"

definition not_supported :: "string \<Rightarrow> sys_exit" where
  "not_supported fmt = ExitMsg (''Format '' @ [CHR 0x22] @ fmt @ [CHR 0x22] @ '' not supported'')"

definition not_combinable :: "string \<Rightarrow> sys_exit" where
  "not_combinable fmt =
     ExitMsg (''Format '' @ [CHR 0x22] @ fmt @ [CHR 0x22]
              @ '' cannot be combined with other formats'')"

text \<open>The loop over several formats: the first offending name ends the process.\<close>

fun check_combined :: "string list \<Rightarrow> sys_exit option" where
  "check_combined [] = None"
| "check_combined (fmt # fs) =
     (if fmt \<notin> set formats_combinable
      then (if fmt \<in> set formats_uncombinable then Some (not_combinable fmt)
            else Some (not_supported fmt))
      else check_combined fs)"

definition check_format :: "string list \<Rightarrow> sys_exit option" where
  "check_format fmts =
     (if length fmts = 1
      then (if hd fmts \<notin> set supported_formats then Some (not_supported (hd fmts))
            else None)
      else check_combined fmts)"

type_synonym environ = "string \<rightharpoonup> string"

definition parse_args :: "environ \<Rightarrow> args \<Rightarrow> sys_exit + args" where
  "parse_args env a =
     (case check_format (format a) of
        Some x \<Rightarrow> Inl x
      | None \<Rightarrow>
          (if exclude_serial a = None
           then (case env ''EXCLUDE_TTY_SERIAL'' of
                   Some v \<Rightarrow> Inr (a\<lparr>exclude_serial := Some (py_split v)\<rparr>)
                 | None \<Rightarrow> Inr (a\<lparr>exclude_serial := Some []\<rparr>))
           else Inr a))"

section \<open>The formatter: \<^verbatim>\<open>print_table\<close> and \<^verbatim>\<open>print_results\<close>\<close>

text \<open>
  Printing is a pair: the text written to standard output so far, and the exception that
  stopped it, if any. \<open>then_write\<close> runs a second step after a first one that did not raise.
\<close>

type_synonym printed = "string \<times> error option"

definition then_write :: "printed \<Rightarrow> printed \<Rightarrow> printed" where
  "then_write p q = (case snd p of Some e \<Rightarrow> p | None \<Rightarrow> (fst p @ fst q, snd q))"

text \<open>
  The column widths of \<^verbatim>\<open>print_table\<close>: the header lengths, then for each item and each
  column \<^verbatim>\<open>if len(str(item[header])) > lengths[i]: lengths[i] = len(item[header])\<close>.
\<close>

fun scan_item :: "pylib \<Rightarrow> tty \<Rightarrow> (nat \<times> string) list \<Rightarrow> nat list \<Rightarrow> error + nat list" where
  "scan_item L item [] lengths = Inr lengths"
| "scan_item L item ((i, header) # rest) lengths =
     (case getitem item header of
        Inl e \<Rightarrow> Inl e
      | Inr v \<Rightarrow>
          (if length (py_str L v) > lengths ! i
           then (case py_len v of
                   Inl e \<Rightarrow> Inl e
                 | Inr n \<Rightarrow> scan_item L item rest (lengths[i := n]))
           else scan_item L item rest lengths))"

fun scan_data :: "pylib \<Rightarrow> tty list \<Rightarrow> string list \<Rightarrow> nat list \<Rightarrow> error + nat list" where
  "scan_data L [] headers lengths = Inr lengths"
| "scan_data L (item # data) headers lengths =
     (case scan_item L item (enumerate 0 headers) lengths of
        Inl e \<Rightarrow> Inl e
      | Inr lengths' \<Rightarrow> scan_data L data headers lengths')"

text \<open>The cells of one row after the first, and the rows.\<close>

fun row_cells :: "pylib \<Rightarrow> tty \<Rightarrow> (string \<times> nat) list \<Rightarrow> printed" where
  "row_cells L item [] = ([], None)"
| "row_cells L item ((header, len) # rest) =
     (case getitem item header of
        Inl e \<Rightarrow> ([], Some e)
      | Inr v \<Rightarrow> then_write ('' | '' @ pad (py_str L v) len, None) (row_cells L item rest))"

fun table_rows :: "pylib \<Rightarrow> tty list \<Rightarrow> string list \<Rightarrow> nat list \<Rightarrow> printed" where
  "table_rows L [] headers lengths = ([], None)"
| "table_rows L (item # data) headers lengths =
     (case getitem item (hd headers) of
        Inl e \<Rightarrow> ([], Some e)
      | Inr v \<Rightarrow>
          then_write (CHR 0x0A # pad (py_str L v) (hd lengths), None)
         (then_write (row_cells L item (zip (tl headers) (tl lengths)))
            (table_rows L data headers lengths)))"

definition print_table :: "pylib \<Rightarrow> tty list \<Rightarrow> string list \<Rightarrow> printed" where
  "print_table L data headers =
     (case scan_data L data headers (map length headers) of
        Inl e \<Rightarrow> ([], Some e)
      | Inr lengths \<Rightarrow>
          (if headers = [] then ([], Some IndexError)
           else
             then_write
               (pad (hd headers) (hd lengths)
                  @ concat (map (\<lambda>i. '' | '' @ pad (headers ! i) (lengths ! i))
                              [1..<length headers])
                  @ [CHR 0x0A] @ replicate (hd lengths) CHR ''-''
                  @ concat (map (\<lambda>i. ''-|-'' @ replicate (lengths ! i) CHR ''-'')
                              [1..<length headers]),
                None)
            (then_write (table_rows L data headers lengths) ([CHR 0x0A], None))))"

text \<open>
  Table mode first runs
  \<^verbatim>\<open>for tty in ttys: tty["ctime"] = time.strftime("%H:%M:%S", time.localtime(tty["ctime"]))\<close>,
  an assignment into each dict of the list. The list as it stands afterwards is returned
  beside the exception that stopped the loop, if any.
\<close>

definition localtime_HMS :: "pylib \<Rightarrow> pyval \<Rightarrow> error + string" where
  "localtime_HMS L v =
     (case v of
        PFloat x \<Rightarrow> Inr (strftime_HMS L x)
      | PNone \<Rightarrow> Inr (strftime_HMS L (time_now L))
      | PStr s \<Rightarrow> Inl TypeError)"

fun ctime_to_text :: "pylib \<Rightarrow> tty list \<Rightarrow> tty list \<times> error option" where
  "ctime_to_text L [] = ([], None)"
| "ctime_to_text L (tty # ttys) =
     (case getitem tty ''ctime'' of
        Inl e \<Rightarrow> (tty # ttys, Some e)
      | Inr v \<Rightarrow>
          (case localtime_HMS L v of
             Inl e \<Rightarrow> (tty # ttys, Some e)
           | Inr s \<Rightarrow>
               (let (ttys', r) = ctime_to_text L ttys
                in (AList.update ''ctime'' (PStr s) tty # ttys', r))))"

text \<open>
  The lines of the field formats. \<^verbatim>\<open>item.rfind\<close> exists on a string only: a value that is
  \<^verbatim>\<open>None\<close> or a float raises AttributeError.
\<close>

fun build_line :: "string \<Rightarrow> tty \<Rightarrow> string list \<Rightarrow> string \<Rightarrow> error + string" where
  "build_line sep tty [] line = Inr line"
| "build_line sep tty (fmt # fmts) line =
     (case getitem tty fmt of
        Inl e \<Rightarrow> Inl e
      | Inr (PStr item) \<Rightarrow>
          build_line sep tty fmts
            (line @ sep @ (if rfind item sep \<ge> 0 then json_dumps_str item else item))
      | Inr _ \<Rightarrow> Inl AttributeError)"

fun print_lines :: "string \<Rightarrow> string list \<Rightarrow> tty list \<Rightarrow> printed" where
  "print_lines sep fmts [] = ([], None)"
| "print_lines sep fmts (tty # ttys) =
     (case build_line sep tty fmts [] of
        Inl e \<Rightarrow> ([], Some e)
      | Inr line \<Rightarrow>
          then_write (drop (length sep) line @ [CHR 0x0A], None) (print_lines sep fmts ttys))"

definition table_headers :: "string list" where
  "table_headers =
     [''path'', ''driver'', ''vendor'', ''model'', ''model_db'', ''serial'', ''ctime'',
      ''iface_num'']"

text \<open>\<^verbatim>\<open>print_results\<close>: what was printed, and the list of dicts as the call leaves it.\<close>

definition print_results :: "pylib \<Rightarrow> args \<Rightarrow> tty list \<Rightarrow> printed \<times> tty list" where
  "print_results L a ttys =
     (if length (format a) = 1 \<and> format a ! 0 = ''json''
      then ((json_dumps L ttys @ [CHR 0x0A], None), ttys)
      else if length (format a) = 1 \<and> format a ! 0 = ''table''
      then (case ctime_to_text L ttys of
              (ttys', Some e) \<Rightarrow> (([], Some e), ttys')
            | (ttys', None) \<Rightarrow> (print_table L ttys' table_headers, ttys'))
      else (print_lines (format_sep a) (format a) ttys, ttys))"

section \<open>The run: \<^verbatim>\<open>print_ttys\<close>\<close>

text \<open>\<^verbatim>\<open>x not in xs\<close> for the exclusion list; \<^verbatim>\<open>None\<close> equals no string.\<close>

definition not_in :: "pyval \<Rightarrow> string list option \<Rightarrow> error + bool" where
  "not_in v xs =
     (case xs of
        None \<Rightarrow> Inl TypeError
      | Some l \<Rightarrow> Inr (case v of PStr s \<Rightarrow> s \<notin> set l | _ \<Rightarrow> True))"

text \<open>
  The loop over the devices:
  \<^verbatim>\<open>if tty["serial"] not in args.exclude_serial and filters_match(filters, tty)\<close>.
\<close>

fun collect :: "pylib \<Rightarrow> string list option \<Rightarrow> filter list \<Rightarrow> dev list \<Rightarrow> error + tty list" where
  "collect L excl filters [] = Inr []"
| "collect L excl filters (d # ds) =
     and_then (tty2dict L d)
       (\<lambda>tty. and_then (getitem tty ''serial'')
       (\<lambda>ser. and_then (not_in ser excl)
       (\<lambda>keep. and_then (if keep then filters_match filters tty else Inr False)
       (\<lambda>ok. and_then (collect L excl filters ds)
       (\<lambda>rest. Inr (if ok then tty # rest else rest))))))"

text \<open>
  The most-recent selection (the \<^verbatim>\<open>if args.most_recent:\<close> block): the scan keeps the
  current candidate and replaces it when \<^verbatim>\<open>tty["ctime"] > most_recent["ctime"]\<close>.
\<close>

fun scan_recent :: "tty \<Rightarrow> tty list \<Rightarrow> error + tty" where
  "scan_recent recent [] = Inr recent"
| "scan_recent recent (tty # ttys) =
     and_then (getitem tty ''ctime'')
       (\<lambda>a. and_then (getitem recent ''ctime'')
       (\<lambda>b. and_then (py_gt a b)
       (\<lambda>newer. scan_recent (if newer then tty else recent) ttys)))"

definition select_most_recent :: "bool \<Rightarrow> tty list \<Rightarrow> error + tty list" where
  "select_most_recent flag ttys =
     (if flag
      then (if length ttys > 0
            then and_then (scan_recent (ttys ! 0) ttys) (\<lambda>recent. Inr [recent])
            else Inr [])
      else Inr ttys)"

text \<open>
  What a run leaves behind. An exception that nothing catches ends the process with a
  traceback on standard error and status 1. \<open>queried\<close> says whether the device list was
  asked for.
\<close>

record outcome =
  stdout :: string
  stderr :: stderr_text
  exit_code :: int
  queried :: bool

definition uncaught :: "string \<Rightarrow> error \<Rightarrow> bool \<Rightarrow> outcome" where
  "uncaught out e q = \<lparr>stdout = out, stderr = Traceback e, exit_code = 1, queried = q\<rparr>"

definition exited :: "sys_exit \<Rightarrow> bool \<Rightarrow> outcome" where
  "exited x q = \<lparr>stdout = [], stderr = exit_stderr x, exit_code = exit_status x, queried = q\<rparr>"

definition print_ttys :: "pylib \<Rightarrow> environ \<Rightarrow> dev list \<Rightarrow> args \<Rightarrow> outcome" where
  "print_ttys L env devs ns =
     (case parse_args env ns of
        Inl x \<Rightarrow> exited x False
      | Inr a \<Rightarrow>
     (case generate_filters L a of
        Inl e \<Rightarrow> uncaught [] e False
      | Inr filters \<Rightarrow>
     (case collect L (exclude_serial a) filters devs of
        Inl e \<Rightarrow> uncaught [] e True
      | Inr found \<Rightarrow>
     (case select_most_recent (most_recent a) found of
        Inl e \<Rightarrow> uncaught [] e True
      | Inr ttys \<Rightarrow>
          (if length ttys = 0 then exited (ExitCode 1) True
           else (case fst (print_results L a ttys) of
                   (out, Some e) \<Rightarrow> uncaught out e True
                 | (out, None) \<Rightarrow>
                     \<lparr>stdout = out, stderr = Quiet, exit_code = 0, queried = True\<rparr>))))))"

text \<open>
  The records a run ends with, before printing: exclusion, filtering and selection.
\<close>

definition final_ttys :: "pylib \<Rightarrow> dev list \<Rightarrow> args \<Rightarrow> error + tty list" where
  "final_ttys L devs a =
     and_then (generate_filters L a)
       (\<lambda>filters. and_then (collect L (exclude_serial a) filters devs)
       (\<lambda>found. select_most_recent (most_recent a) found))"

subsection \<open>One library, for the examples\<close>

text \<open>
  A small instance of the library parameters, right on the inputs of the examples:
  three device nodes with creation times 100, 200 and 100, codecs that leave a string
  without backslashes as it is, decimal \<^verbatim>\<open>int\<close>, UTC as the local time zone, and the
  \<^verbatim>\<open>repr\<close> of a float with an integral value.
\<close>

fun digits_value :: "nat \<Rightarrow> string \<Rightarrow> error + int" where
  "digits_value acc [] = Inr (int acc)"
| "digits_value acc (c # cs) =
     (if 48 \<le> (of_char c :: nat) \<and> (of_char c :: nat) \<le> 57
      then digits_value (10 * acc + (of_char c - 48)) cs
      else Inl ValueError)"

definition two_digits :: "nat \<Rightarrow> string" where
  "two_digits n = [digit_char (n div 10), digit_char (n mod 10)]"

definition hms_utc :: "rat \<Rightarrow> string" where
  "hms_utc x =
     (let n = nat (\<lfloor>x\<rfloor> mod 86400)
      in two_digits (n div 3600) @ '':'' @ two_digits (n div 60 mod 60) @ '':''
         @ two_digits (n mod 60))"

definition lib0 :: pylib where
  "lib0 =
     \<lparr>os_stat_ctime =
        (\<lambda>p. if p = ''/dev/ttyACM0'' then Inr 100
             else if p = ''/dev/ttyACM1'' then Inr 200
             else if p = ''/dev/ttyUSB0'' then Inr 100
             else Inl OSError),
      decode_unicode_escape = Inr,
      latin1_as_utf8 = Inr,
      int_of_str = (\<lambda>s. if s = [] then Inl ValueError else digits_value 0 s),
      strftime_HMS = hms_utc,
      time_now = 0,
      float_repr = (\<lambda>x. str_int \<lfloor>x\<rfloor> @ ''.0''),
      re_compile_other = (\<lambda>p. Inl ReError)\<rparr>"

definition dev_of :: "(string \<times> string) list \<Rightarrow> dev" where
  "dev_of props = map_of props"

definition args0 :: args where
  "args0 =
     \<lparr>most_recent = False, format = [''table''], format_sep = '' '',
      serial = None, driver = None, model = None, model_db = None, vendor = None,
      vendor_db = None, iface_num = None, exclude_serial = None\<rparr>"

definition dev_A :: dev where
  "dev_A = dev_of
     [(''DEVNAME'', ''/dev/ttyACM0''), (''ID_SERIAL_SHORT'', ''AAA''),
      (''ID_USB_DRIVER'', ''cdc_acm''), (''ID_MODEL_ENC'', ''Board''),
      (''ID_VENDOR_ENC'', ''ACME Corp''), (''ID_USB_INTERFACE_NUM'', ''00'')]"

definition dev_B :: dev where
  "dev_B = dev_of
     [(''DEVNAME'', ''/dev/ttyACM1''), (''ID_SERIAL_SHORT'', ''BBB''),
      (''ID_USB_DRIVER'', ''cdc_acm''), (''ID_MODEL_ENC'', ''Board''),
      (''ID_VENDOR_ENC'', ''ACME''), (''ID_USB_INTERFACE_NUM'', ''01'')]"

text \<open>A device without a serial number.\<close>

definition dev_C :: dev where
  "dev_C = dev_of
     [(''DEVNAME'', ''/dev/ttyUSB0''), (''ID_USB_DRIVER'', ''ftdi_sio''),
      (''ID_MODEL_ENC'', ''UART''), (''ID_VENDOR_ENC'', ''FTDI''),
      (''ID_USB_INTERFACE_NUM'', ''00'')]"

text \<open>A device whose \<^verbatim>\<open>ID_MODEL_ENC\<close> is absent.\<close>

definition dev_D :: dev where
  "dev_D = dev_of
     [(''DEVNAME'', ''/dev/ttyACM0''), (''ID_SERIAL_SHORT'', ''AAA''),
      (''ID_USB_DRIVER'', ''cdc_acm''), (''ID_VENDOR_ENC'', ''ACME''),
      (''ID_USB_INTERFACE_NUM'', ''00'')]"

text \<open>The dict that \<open>tty2dict lib0 dev_A\<close> builds.\<close>

definition tty_A :: tty where
  "tty_A =
     [(''path'', PStr ''/dev/ttyACM0''), (''ctime'', PFloat 100),
      (''serial'', PStr ''AAA''), (''driver'', PStr ''cdc_acm''),
      (''model'', PStr ''Board''), (''model_db'', PNone),
      (''vendor'', PStr ''ACME Corp''), (''vendor_db'', PNone),
      (''iface_num'', PStr ''0'')]"

text \<open>The dicts of \<open>dev_B\<close> and \<open>dev_C\<close>.\<close>

definition tty_B :: tty where
  "tty_B =
     [(''path'', PStr ''/dev/ttyACM1''), (''ctime'', PFloat 200),
      (''serial'', PStr ''BBB''), (''driver'', PStr ''cdc_acm''),
      (''model'', PStr ''Board''), (''model_db'', PNone),
      (''vendor'', PStr ''ACME''), (''vendor_db'', PNone),
      (''iface_num'', PStr ''1'')]"

definition tty_C :: tty where
  "tty_C =
     [(''path'', PStr ''/dev/ttyUSB0''), (''ctime'', PFloat 100),
      (''serial'', PNone), (''driver'', PStr ''ftdi_sio''),
      (''model'', PStr ''UART''), (''model_db'', PNone),
      (''vendor'', PStr ''FTDI''), (''vendor_db'', PNone),
      (''iface_num'', PStr ''0'')]"

text \<open>The record of the scenario: path \<^verbatim>\<open>/dev/ttyACM0\<close>, serial \<^verbatim>\<open>XYZ\<close>.\<close>

definition tty_X :: tty where
  "tty_X = AList.update ''serial'' (PStr ''XYZ'') tty_A"

subsection \<open>Words for the statements\<close>

text \<open>A record whose \<^verbatim>\<open>ctime\<close> is the float \<open>x\<close>.\<close>

abbreviation has_ctime :: "tty \<Rightarrow> rat \<Rightarrow> bool" where
  "has_ctime t x \<equiv> map_of t ''ctime'' = Some (PFloat x)"

text \<open>
  A field that holds a string, and the string it holds; a field value as the field
  formats write it (quoted by \<^verbatim>\<open>json.dumps\<close> when it contains the separator); a record all
  of whose requested fields hold strings; and the line the field formats print for it.
\<close>

fun is_str :: "pyval option \<Rightarrow> bool" where
  "is_str (Some (PStr s)) = True"
| "is_str _ = False"

fun str_of :: "pyval option \<Rightarrow> string" where
  "str_of (Some (PStr s)) = s"
| "str_of _ = []"

definition quoted :: "string \<Rightarrow> string \<Rightarrow> string" where
  "quoted sep item = (if rfind item sep \<ge> 0 then json_dumps_str item else item)"

definition all_str :: "string list \<Rightarrow> tty \<Rightarrow> bool" where
  "all_str fmts tty = list_all (\<lambda>fmt. is_str (map_of tty fmt)) fmts"

definition field_line :: "string \<Rightarrow> string list \<Rightarrow> tty \<Rightarrow> string" where
  "field_line sep fmts tty =
     join sep (map (\<lambda>fmt. quoted sep (str_of (map_of tty fmt))) fmts) @ [CHR 0x0A]"

text \<open>
  A field that holds a string or \<^verbatim>\<open>None\<close>, a field that holds a float, and a record that
  table mode can show: every column holds a string or \<^verbatim>\<open>None\<close>.
\<close>

fun is_opt_str :: "pyval option \<Rightarrow> bool" where
  "is_opt_str (Some (PStr s)) = True"
| "is_opt_str (Some PNone) = True"
| "is_opt_str _ = False"

fun is_float :: "pyval option \<Rightarrow> bool" where
  "is_float (Some (PFloat x)) = True"
| "is_float _ = False"

definition shown :: "tty \<Rightarrow> bool" where
  "shown t = list_all (\<lambda>h. is_opt_str (map_of t h)) table_headers"

text \<open>
  A record as \<^verbatim>\<open>tty2dict\<close> builds it: the path is a string, the creation time a float,
  and each of the seven other fields a string or \<^verbatim>\<open>None\<close>.
\<close>

definition wf_tty :: "tty \<Rightarrow> bool" where
  "wf_tty t =
     (is_str (map_of t ''path'') \<and> is_float (map_of t ''ctime'') \<and>
      list_all (\<lambda>k. is_opt_str (map_of t k))
        [''serial'', ''driver'', ''model'', ''model_db'', ''vendor'', ''vendor_db'',
         ''iface_num''])"

text \<open>
  What "split on whitespace" means, said without the splitter: the value is a run of
  whitespace, then the words, each a non-empty run of characters that are not whitespace
  followed by a run of whitespace, which is non-empty between two words.
\<close>

definition whitespace_split :: "string \<Rightarrow> string list \<Rightarrow> bool" where
  "whitespace_split v ws =
     (\<exists>g0 pairs.
        ws = map fst pairs \<and>
        v = g0 @ concat (map (\<lambda>(w, g). w @ g) pairs) \<and>
        (\<forall>c \<in> set g0. is_space c) \<and>
        (\<forall>(w, g) \<in> set pairs.
           w \<noteq> [] \<and> (\<forall>c \<in> set w. \<not> is_space c) \<and> (\<forall>c \<in> set g. is_space c)) \<and>
        (\<forall>i. Suc i < length pairs \<longrightarrow> snd (pairs ! i) \<noteq> []))"

section \<open>Properties\<close>

subsection \<open>The exclusion list\<close>

lemma split_ws_concat: "concat (split_ws w s) = w @ filter (\<lambda>c. \<not> is_space c) s"
  by (induction s arbitrary: w) auto

lemma check_format_args0: "check_format (format args0) = None"
  by (simp add: check_format_def args0_def supported_formats_def formats_combinable_def
      formats_uncombinable_def)

text \<open>
  The splitter computes the words of its argument, and nothing else is a list of its words.
\<close>

lemma split_ws_decompose:
  assumes "\<forall>c \<in> set w. \<not> is_space c"
  shows "\<exists>g0 pairs.
           split_ws w s = map fst pairs \<and>
           w @ s = g0 @ concat (map (\<lambda>(x, g). x @ g) pairs) \<and>
           (\<forall>c \<in> set g0. is_space c) \<and>
           (\<forall>(x, g) \<in> set pairs.
              x \<noteq> [] \<and> (\<forall>c \<in> set x. \<not> is_space c) \<and> (\<forall>c \<in> set g. is_space c)) \<and>
           (\<forall>i. Suc i < length pairs \<longrightarrow> snd (pairs ! i) \<noteq> []) \<and>
           (w \<noteq> [] \<longrightarrow> g0 = [])"
  using assms
proof (induction s arbitrary: w)
  case Nil
  show ?case
  proof (cases "w = []")
    case True
    then show ?thesis
      by (intro exI [of _ "[]"]) simp
  next
    case False
    with Nil show ?thesis
      by (intro exI [of _ "[]"] exI [of _ "[(w, [])]"]) simp
  qed
next
  case (Cons c cs)
  show ?case
  proof (cases "is_space c")
    case sp: True
    obtain g0 pairs where
      r: "split_ws [] cs = map fst pairs"
      and v: "cs = g0 @ concat (map (\<lambda>(x, g). x @ g) pairs)"
      and g: "\<forall>c \<in> set g0. is_space c"
      and p: "\<forall>(x, g) \<in> set pairs.
                x \<noteq> [] \<and> (\<forall>c \<in> set x. \<not> is_space c) \<and> (\<forall>c \<in> set g. is_space c)"
      and n: "\<forall>i. Suc i < length pairs \<longrightarrow> snd (pairs ! i) \<noteq> []"
      using Cons.IH [of "[]"] by auto
    show ?thesis
    proof (cases "w = []")
      case True
      with sp r v g p n show ?thesis
        by (intro exI [of _ "c # g0"] exI [of _ pairs]) simp
    next
      case False
      have n': "\<forall>i. Suc i < length ((w, c # g0) # pairs) \<longrightarrow>
                  snd (((w, c # g0) # pairs) ! i) \<noteq> []"
      proof (intro allI impI)
        fix i assume "Suc i < length ((w, c # g0) # pairs)"
        then show "snd (((w, c # g0) # pairs) ! i) \<noteq> []"
          using n by (cases i) simp_all
      qed
      from False sp r v g p Cons.prems n' show ?thesis
        by (intro exI [of _ "[]"] exI [of _ "(w, c # g0) # pairs"]) simp
    qed
  next
    case ns: False
    have "\<forall>x \<in> set (w @ [c]). \<not> is_space x"
      using Cons.prems ns by simp
    from Cons.IH [OF this] obtain g0 pairs where
      r: "split_ws (w @ [c]) cs = map fst pairs"
      and v: "(w @ [c]) @ cs = g0 @ concat (map (\<lambda>(x, g). x @ g) pairs)"
      and g: "\<forall>c \<in> set g0. is_space c"
      and p: "\<forall>(x, g) \<in> set pairs.
                x \<noteq> [] \<and> (\<forall>c \<in> set x. \<not> is_space c) \<and> (\<forall>c \<in> set g. is_space c)"
      and n: "\<forall>i. Suc i < length pairs \<longrightarrow> snd (pairs ! i) \<noteq> []"
      and e: "g0 = []"
      by auto
    from ns r v g p n e show ?thesis
      by (intro exI [of _ "g0"] exI [of _ pairs]) simp
  qed
qed

lemma py_split_whitespace_split: "whitespace_split v (py_split v)"
  using split_ws_decompose [of "[]" v]
  unfolding whitespace_split_def py_split_def by auto

lemma split_ws_skip_spaces:
  "\<forall>c \<in> set g. is_space c \<Longrightarrow> split_ws [] (g @ s) = split_ws [] s"
  by (induction g) simp_all

lemma split_ws_take_word:
  "\<forall>c \<in> set x. \<not> is_space c \<Longrightarrow> split_ws w (x @ s) = split_ws (w @ x) s"
  by (induction x arbitrary: w) simp_all

lemma split_ws_end_word:
  "\<forall>c \<in> set g. is_space c \<Longrightarrow> g \<noteq> [] \<Longrightarrow> w \<noteq> [] \<Longrightarrow>
     split_ws w (g @ s) = w # split_ws [] s"
  by (cases g) (simp_all add: split_ws_skip_spaces)

lemma split_ws_last_word:
  "\<forall>c \<in> set g. is_space c \<Longrightarrow> w \<noteq> [] \<Longrightarrow> split_ws w g = [w]"
  using split_ws_end_word [of g w "[]"] by (cases "g = []") simp_all

lemma split_ws_pairs:
  assumes "\<forall>(x, g) \<in> set pairs.
             x \<noteq> [] \<and> (\<forall>c \<in> set x. \<not> is_space c) \<and> (\<forall>c \<in> set g. is_space c)"
    and "\<forall>i. Suc i < length pairs \<longrightarrow> snd (pairs ! i) \<noteq> []"
  shows "split_ws [] (concat (map (\<lambda>(x, g). x @ g) pairs)) = map fst pairs"
  using assms
proof (induction pairs)
  case Nil
  show ?case by simp
next
  case (Cons p rest)
  obtain x g where pe: "p = (x, g)" by (cases p)
  have x: "x \<noteq> []" "\<forall>c \<in> set x. \<not> is_space c" "\<forall>c \<in> set g. is_space c"
    using Cons.prems(1) pe by auto
  have n: "\<forall>i. Suc i < length rest \<longrightarrow> snd (rest ! i) \<noteq> []"
  proof (intro allI impI)
    fix i assume "Suc i < length rest"
    then show "snd (rest ! i) \<noteq> []"
      using Cons.prems(2) [rule_format, of "Suc i"] by simp
  qed
  have ih: "split_ws [] (concat (map (\<lambda>(x, g). x @ g) rest)) = map fst rest"
    using Cons.IH Cons.prems(1) n by simp
  let ?tail = "concat (map (\<lambda>(x, g). x @ g) rest)"
  have 1: "split_ws [] (x @ g @ ?tail) = split_ws x (g @ ?tail)"
    using split_ws_take_word [OF x(2), of "[]" "g @ ?tail"] by simp
  show ?case
  proof (cases "rest = []")
    case True
    then show ?thesis
      using 1 split_ws_last_word [OF x(3) x(1)] pe by simp
  next
    case False
    then have "g \<noteq> []"
      using Cons.prems(2) [rule_format, of 0] pe by (cases rest) simp_all
    then show ?thesis
      using 1 split_ws_end_word [OF x(3) _ x(1), of ?tail] ih pe by simp
  qed
qed

lemma whitespace_split_py_split:
  assumes "whitespace_split v ws"
  shows "ws = py_split v"
proof -
  from assms obtain g0 pairs where
    r: "ws = map fst pairs"
    and v: "v = g0 @ concat (map (\<lambda>(w, g). w @ g) pairs)"
    and g: "\<forall>c \<in> set g0. is_space c"
    and p: "\<forall>(w, g) \<in> set pairs.
              w \<noteq> [] \<and> (\<forall>c \<in> set w. \<not> is_space c) \<and> (\<forall>c \<in> set g. is_space c)"
    and n: "\<forall>i. Suc i < length pairs \<longrightarrow> snd (pairs ! i) \<noteq> []"
    unfolding whitespace_split_def by blast
  show ?thesis
    unfolding py_split_def v r
    using split_ws_skip_spaces [OF g] split_ws_pairs [OF p n] by simp
qed

lemma whitespace_split_unique:
  "whitespace_split v ws \<Longrightarrow> whitespace_split v ws' \<Longrightarrow> ws = ws'"
  using whitespace_split_py_split by blast

text \<open>
  Claim C9. With a valid format, \<^verbatim>\<open>parse_args\<close> returns the arguments with nothing but
  the exclusion list changed, and that list is: the values of \<^verbatim>\<open>--exclude-serial\<close> when
  the flag was given (the empty list when it was given without values, whatever the
  environment holds); and only when the flag was absent, the words of
  \<^verbatim>\<open>EXCLUDE_TTY_SERIAL\<close> split on whitespace, or the empty list when the variable is
  unset. The words are the only list that \<^const>\<open>whitespace_split\<close> relates to the value of
  the variable: the maximal runs of characters that are not whitespace, in their order.
\<close>

theorem exclusion_list_tri_state:
  assumes "check_format (format a) = None"
  shows "\<exists>excl. parse_args env a = Inr (a\<lparr>exclude_serial := Some excl\<rparr>) \<and>
           excl = (case exclude_serial a of
                     Some given \<Rightarrow> given
                   | None \<Rightarrow> (case env ''EXCLUDE_TTY_SERIAL'' of
                                Some v \<Rightarrow> py_split v
                              | None \<Rightarrow> [])) \<and>
           (\<forall>given. exclude_serial a = Some given \<longrightarrow> excl = given) \<and>
           (exclude_serial a = None \<and> env ''EXCLUDE_TTY_SERIAL'' = None \<longrightarrow> excl = []) \<and>
           (\<forall>v. exclude_serial a = None \<and> env ''EXCLUDE_TTY_SERIAL'' = Some v \<longrightarrow>
                  whitespace_split v excl \<and> (\<forall>ws. whitespace_split v ws \<longrightarrow> ws = excl))"
proof (cases "exclude_serial a")
  case (Some given)
  then have "a\<lparr>exclude_serial := Some given\<rparr> = a" by simp
  with Some assms show ?thesis
    by (intro exI [of _ given]) (simp add: parse_args_def)
next
  case None
  show ?thesis
  proof (cases "env ''EXCLUDE_TTY_SERIAL''")
    case n: None
    with None assms show ?thesis
      by (intro exI [of _ "[]"]) (simp add: parse_args_def)
  next
    case (Some v)
    have p: "parse_args env a = Inr (a\<lparr>exclude_serial := Some (py_split v)\<rparr>)"
      using None Some assms by (simp add: parse_args_def)
    have w: "whitespace_split v (py_split v)"
      by (rule py_split_whitespace_split)
    have u: "\<forall>ws. whitespace_split v ws \<longrightarrow> ws = py_split v"
      using whitespace_split_py_split by blast
    show ?thesis
    proof (intro exI [of _ "py_split v"] conjI)
      show "parse_args env a = Inr (a\<lparr>exclude_serial := Some (py_split v)\<rparr>)"
        by (rule p)
      show "py_split v = (case exclude_serial a of
                     Some given \<Rightarrow> given
                   | None \<Rightarrow> (case env ''EXCLUDE_TTY_SERIAL'' of
                                Some v \<Rightarrow> py_split v
                              | None \<Rightarrow> []))"
        using None Some by simp
      show "\<forall>given. exclude_serial a = Some given \<longrightarrow> py_split v = given"
        using None by simp
      show "exclude_serial a = None \<and> env ''EXCLUDE_TTY_SERIAL'' = None \<longrightarrow> py_split v = []"
        using Some by simp
      show "\<forall>v'. exclude_serial a = None \<and> env ''EXCLUDE_TTY_SERIAL'' = Some v' \<longrightarrow>
                  whitespace_split v' (py_split v) \<and>
                  (\<forall>ws. whitespace_split v' ws \<longrightarrow> ws = py_split v)"
      proof (intro allI impI)
        fix v' assume "exclude_serial a = None \<and> env ''EXCLUDE_TTY_SERIAL'' = Some v'"
        with Some have "v' = v" by simp
        with w u show "whitespace_split v' (py_split v) \<and>
                  (\<forall>ws. whitespace_split v' ws \<longrightarrow> ws = py_split v)"
          by blast
      qed
    qed
  qed
qed

theorem exclusion_list_tri_state_witness:
  "check_format (format args0) = None \<and> exclude_serial args0 = None \<and>
   whitespace_split '' AAA  BBB '' [''AAA'', ''BBB''] \<and>
   parse_args [''EXCLUDE_TTY_SERIAL'' \<mapsto> '' AAA  BBB ''] args0 =
     Inr (args0\<lparr>exclude_serial := Some [''AAA'', ''BBB'']\<rparr>) \<and>
   parse_args Map.empty args0 = Inr (args0\<lparr>exclude_serial := Some []\<rparr>) \<and>
   parse_args [''EXCLUDE_TTY_SERIAL'' \<mapsto> '' AAA  BBB '']
     (args0\<lparr>exclude_serial := Some []\<rparr>) = Inr (args0\<lparr>exclude_serial := Some []\<rparr>) \<and>
   parse_args [''EXCLUDE_TTY_SERIAL'' \<mapsto> '' AAA  BBB '']
     (args0\<lparr>exclude_serial := Some [''CCC'']\<rparr>) =
     Inr (args0\<lparr>exclude_serial := Some [''CCC'']\<rparr>)"
proof -
  let ?env = "[''EXCLUDE_TTY_SERIAL'' \<mapsto> '' AAA  BBB '']"
  have h: "check_format (format args0) = None"
    by (rule check_format_args0)
  have n: "exclude_serial args0 = None"
    by (simp add: args0_def)
  have e: "?env ''EXCLUDE_TTY_SERIAL'' = Some '' AAA  BBB ''"
    by simp
  have w: "whitespace_split '' AAA  BBB '' [''AAA'', ''BBB'']"
    unfolding whitespace_split_def
    by (intro exI [of _ "'' ''"] exI [of _ "[(''AAA'', ''  ''), (''BBB'', '' '')]"])
       (simp add: is_space_def)
  have 1: "parse_args ?env args0 = Inr (args0\<lparr>exclude_serial := Some [''AAA'', ''BBB'']\<rparr>)"
  proof -
    from exclusion_list_tri_state [OF h, of ?env] obtain excl where
      p: "parse_args ?env args0 = Inr (args0\<lparr>exclude_serial := Some excl\<rparr>)"
      and u: "\<forall>v. exclude_serial args0 = None \<and> ?env ''EXCLUDE_TTY_SERIAL'' = Some v \<longrightarrow>
                whitespace_split v excl \<and> (\<forall>ws. whitespace_split v ws \<longrightarrow> ws = excl)"
      by blast
    from u n e have "\<forall>ws. whitespace_split '' AAA  BBB '' ws \<longrightarrow> ws = excl"
      by blast
    with w have "[''AAA'', ''BBB''] = excl"
      by blast
    with p show ?thesis by simp
  qed
  have 2: "parse_args Map.empty args0 = Inr (args0\<lparr>exclude_serial := Some []\<rparr>)"
  proof -
    from exclusion_list_tri_state [OF h, of Map.empty] obtain excl where
      p: "parse_args Map.empty args0 = Inr (args0\<lparr>exclude_serial := Some excl\<rparr>)"
      and u: "exclude_serial args0 = None \<and> Map.empty ''EXCLUDE_TTY_SERIAL'' = None \<longrightarrow>
                excl = []"
      by blast
    from u n have "excl = []" by simp
    with p show ?thesis by simp
  qed
  have h3: "check_format (format (args0\<lparr>exclude_serial := Some []\<rparr>)) = None"
    using h by simp
  have 3: "parse_args ?env (args0\<lparr>exclude_serial := Some []\<rparr>) =
             Inr (args0\<lparr>exclude_serial := Some []\<rparr>)"
  proof -
    from exclusion_list_tri_state [OF h3, of ?env] obtain excl where
      p: "parse_args ?env (args0\<lparr>exclude_serial := Some []\<rparr>) =
            Inr (args0\<lparr>exclude_serial := Some [], exclude_serial := Some excl\<rparr>)"
      and u: "\<forall>given. exclude_serial (args0\<lparr>exclude_serial := Some []\<rparr>) = Some given \<longrightarrow>
                excl = given"
      by blast
    from u have "excl = []" by simp
    with p show ?thesis by simp
  qed
  have h4: "check_format (format (args0\<lparr>exclude_serial := Some [''CCC'']\<rparr>)) = None"
    using h by simp
  have 4: "parse_args ?env (args0\<lparr>exclude_serial := Some [''CCC'']\<rparr>) =
             Inr (args0\<lparr>exclude_serial := Some [''CCC'']\<rparr>)"
  proof -
    from exclusion_list_tri_state [OF h4, of ?env] obtain excl where
      p: "parse_args ?env (args0\<lparr>exclude_serial := Some [''CCC'']\<rparr>) =
            Inr (args0\<lparr>exclude_serial := Some [''CCC''], exclude_serial := Some excl\<rparr>)"
      and u: "\<forall>given. exclude_serial (args0\<lparr>exclude_serial := Some [''CCC'']\<rparr>) = Some given \<longrightarrow>
                excl = given"
      by blast
    from u have "excl = [''CCC'']" by simp
    with p show ?thesis by simp
  qed
  from h n w 1 2 3 4 show ?thesis by (intro conjI)
qed

lemma exclusion_from_environment:
  "\<exists>a'. parse_args [''EXCLUDE_TTY_SERIAL'' \<mapsto> '' AAA  BBB ''] args0 = Inr a' \<and>
     exclude_serial a' = Some [''AAA'', ''BBB'']"
  using check_format_args0
  by (simp add: parse_args_def args0_def py_split_def is_space_def)

subsection \<open>The filter engine\<close>

lemma filters_match_Cons_True:
  "(filters_match ((k, p) # F) R = Inr True) =
     ((\<exists>s. map_of R k = Some (PStr s) \<and> p s) \<and> filters_match F R = Inr True)"
  by (cases "map_of R k") (auto simp: getitem_def split: pyval.splits)

lemma filters_match_True_iff:
  "(filters_match F R = Inr True) =
     (\<forall>(k, p) \<in> set F. \<exists>s. map_of R k = Some (PStr s) \<and> p s)"
proof (induction F)
  case Nil
  show ?case by simp
next
  case (Cons f F)
  obtain k p where f: "f = (k, p)" by (cases f)
  show ?case unfolding f filters_match_Cons_True Cons.IH by simp
qed

lemma filters_match_total:
  "\<forall>(k, p) \<in> set F. map_of R k = Some PNone \<or> (\<exists>s. map_of R k = Some (PStr s)) \<Longrightarrow>
   filters_match F R = Inr (\<forall>(k, p) \<in> set F. \<exists>s. map_of R k = Some (PStr s) \<and> p s)"
proof (induction F)
  case Nil
  show ?case by simp
next
  case (Cons f F)
  obtain k p where f: "f = (k, p)" by (cases f)
  from Cons.prems have rest: "\<forall>(k, p) \<in> set F. map_of R k = Some PNone \<or> (\<exists>s. map_of R k = Some (PStr s))"
    by simp
  from Cons.prems f consider "map_of R k = Some PNone" | s where "map_of R k = Some (PStr s)"
    by auto
  then show ?case
  proof cases
    case 1
    then show ?thesis unfolding f by (simp add: getitem_def)
  next
    case 2
    then show ?thesis unfolding f using Cons.IH [OF rest] by (simp add: getitem_def)
  qed
qed

lemma filters_match_null_field:
  "filters_match F R = Inr True \<Longrightarrow> (k, p) \<in> set F \<Longrightarrow>
   filters_match F (AList.update k PNone R) = Inr False"
proof (induction F)
  case Nil
  then show ?case by simp
next
  case (Cons f F)
  obtain k' p' where f: "f = (k', p')" by (cases f)
  from Cons.prems(1) obtain s where
    s: "map_of R k' = Some (PStr s)" "p' s" and rest: "filters_match F R = Inr True"
    unfolding f filters_match_Cons_True by blast
  show ?case
  proof (cases "k' = k")
    case True
    then show ?thesis using f by (simp add: getitem_def update_conv')
  next
    case False
    with Cons.prems(2) f have "(k, p) \<in> set F" by auto
    with Cons.IH rest have "filters_match F (AList.update k PNone R) = Inr False" by simp
    with False s f show ?thesis by (simp add: getitem_def update_conv')
  qed
qed

text \<open>
  Claim C7. \<^verbatim>\<open>filters_match\<close> answers true exactly when every predicate of the filter
  list finds its field on the record as a string that its pattern matches; on a record
  whose filtered fields are each \<^verbatim>\<open>None\<close> or a string it always answers, with that
  conjunction; the empty filter list matches; and when it answers true, setting the
  field of any one predicate of the list to \<^verbatim>\<open>None\<close> makes it answer false.
\<close>

theorem filters_match_conjunction:
  "(filters_match F R = Inr True) =
      (\<forall>(k, p) \<in> set F. \<exists>s. map_of R k = Some (PStr s) \<and> p s)
   \<and> ((\<forall>(k, p) \<in> set F. map_of R k = Some PNone \<or> (\<exists>s. map_of R k = Some (PStr s))) \<longrightarrow>
        filters_match F R = Inr (\<forall>(k, p) \<in> set F. \<exists>s. map_of R k = Some (PStr s) \<and> p s))
   \<and> filters_match [] R = Inr True
   \<and> (\<forall>k p. filters_match F R = Inr True \<and> (k, p) \<in> set F \<longrightarrow>
         filters_match F (AList.update k PNone R) = Inr False)"
proof (intro conjI allI impI)
  show "(filters_match F R = Inr True) =
      (\<forall>(k, p) \<in> set F. \<exists>s. map_of R k = Some (PStr s) \<and> p s)"
    by (rule filters_match_True_iff)
  show "filters_match [] R = Inr True" by simp
next
  assume "\<forall>(k, p) \<in> set F. map_of R k = Some PNone \<or> (\<exists>s. map_of R k = Some (PStr s))"
  then show "filters_match F R = Inr (\<forall>(k, p) \<in> set F. \<exists>s. map_of R k = Some (PStr s) \<and> p s)"
    by (rule filters_match_total)
next
  fix k p
  assume "filters_match F R = Inr True \<and> (k, p) \<in> set F"
  then show "filters_match F (AList.update k PNone R) = Inr False"
    using filters_match_null_field by blast
qed

theorem filters_match_conjunction_witness:
  "filters_match [(''serial'', (=) ''AAA''), (''driver'', (\<lambda>s. take 3 s = ''cdc''))] tty_A = Inr True
   \<and> filters_match [(''serial'', (=) ''AAA''), (''driver'', (\<lambda>s. take 3 s = ''cdc''))]
        (AList.update ''driver'' PNone tty_A) = Inr False
   \<and> filters_match [(''model_db'', (\<lambda>s. True))] tty_A = Inr False"
proof -
  let ?F = "[(''serial'', (=) ''AAA''), (''driver'', (\<lambda>s. take 3 s = ''cdc''))]"
  have m: "filters_match ?F tty_A = Inr True"
    using filters_match_conjunction [of ?F tty_A] by (simp add: tty_A_def)
  have n: "filters_match ?F (AList.update ''driver'' PNone tty_A) = Inr False"
    using filters_match_conjunction [of ?F tty_A] m by simp
  have t: "filters_match [(''model_db'', (\<lambda>s. True))] tty_A = Inr False"
    using filters_match_conjunction [of "[(''model_db'', (\<lambda>s. True))]" tty_A]
    by (simp add: tty_A_def)
  from m n t show ?thesis by simp
qed

subsection \<open>The most-recent selection\<close>

lemma scan_recent_step:
  "has_ctime t y \<Longrightarrow> has_ctime r x0 \<Longrightarrow>
   scan_recent r (t # ts) = scan_recent (if y > x0 then t else r) ts"
  by (simp add: and_then_def getitem_def py_gt_def)

lemma scan_recent_spec:
  assumes "has_ctime r x0" and "\<forall>t\<in>set ttys. \<exists>x. has_ctime t x"
  shows "\<exists>m xm. scan_recent r ttys = Inr m \<and> has_ctime m xm \<and>
           (\<forall>t\<in>set ttys. \<forall>y. has_ctime t y \<longrightarrow> y \<le> xm) \<and>
           ((m = r \<and> xm = x0) \<or>
            (\<exists>i<length ttys. m = ttys ! i \<and> x0 < xm \<and>
               (\<forall>j<i. \<forall>y. has_ctime (ttys ! j) y \<longrightarrow> y < xm)))"
  using assms
proof (induction ttys arbitrary: r x0)
  case Nil
  then show ?case by simp
next
  case (Cons t ts)
  from Cons.prems(2) obtain y where y: "has_ctime t y" by auto
  from Cons.prems(2) have rest: "\<forall>t\<in>set ts. \<exists>x. has_ctime t x" by simp
  have step: "scan_recent r (t # ts) = scan_recent (if y > x0 then t else r) ts"
    using y Cons.prems(1) by (rule scan_recent_step)
  show ?case
  proof (cases "y > x0")
    case True
    from Cons.IH [OF y rest] obtain m xm where
      m: "scan_recent t ts = Inr m" "has_ctime m xm"
         "\<forall>u\<in>set ts. \<forall>z. has_ctime u z \<longrightarrow> z \<le> xm"
      and alt: "(m = t \<and> xm = y) \<or>
            (\<exists>i<length ts. m = ts ! i \<and> y < xm \<and>
               (\<forall>j<i. \<forall>z. has_ctime (ts ! j) z \<longrightarrow> z < xm))"
      by blast
    from alt have yle: "y \<le> xm" by auto
    have all: "\<forall>u\<in>set (t # ts). \<forall>z. has_ctime u z \<longrightarrow> z \<le> xm"
      using m(3) y yle by auto
    from alt have "\<exists>i<length (t # ts). m = (t # ts) ! i \<and> x0 < xm \<and>
               (\<forall>j<i. \<forall>z. has_ctime ((t # ts) ! j) z \<longrightarrow> z < xm)"
    proof
      assume "m = t \<and> xm = y"
      with True show ?thesis by (intro exI [of _ 0]) simp
    next
      assume "\<exists>i<length ts. m = ts ! i \<and> y < xm \<and>
               (\<forall>j<i. \<forall>z. has_ctime (ts ! j) z \<longrightarrow> z < xm)"
      then obtain i where i: "i < length ts" "m = ts ! i" "y < xm"
        "\<forall>j<i. \<forall>z. has_ctime (ts ! j) z \<longrightarrow> z < xm" by blast
      have "\<forall>j<Suc i. \<forall>z. has_ctime ((t # ts) ! j) z \<longrightarrow> z < xm"
      proof (intro allI impI)
        fix j z assume "j < Suc i" "has_ctime ((t # ts) ! j) z"
        then show "z < xm" using i(3,4) y by (cases j) auto
      qed
      with i True show ?thesis by (intro exI [of _ "Suc i"]) auto
    qed
    with m all step True show ?thesis by auto
  next
    case False
    from Cons.IH [OF Cons.prems(1) rest] obtain m xm where
      m: "scan_recent r ts = Inr m" "has_ctime m xm"
         "\<forall>u\<in>set ts. \<forall>z. has_ctime u z \<longrightarrow> z \<le> xm"
      and alt: "(m = r \<and> xm = x0) \<or>
            (\<exists>i<length ts. m = ts ! i \<and> x0 < xm \<and>
               (\<forall>j<i. \<forall>z. has_ctime (ts ! j) z \<longrightarrow> z < xm))"
      by blast
    from alt have xle: "x0 \<le> xm" by auto
    have all: "\<forall>u\<in>set (t # ts). \<forall>z. has_ctime u z \<longrightarrow> z \<le> xm"
      using m(3) y xle False by auto
    from alt have "(m = r \<and> xm = x0) \<or> (\<exists>i<length (t # ts). m = (t # ts) ! i \<and> x0 < xm \<and>
               (\<forall>j<i. \<forall>z. has_ctime ((t # ts) ! j) z \<longrightarrow> z < xm))"
    proof
      assume "m = r \<and> xm = x0"
      then show ?thesis by simp
    next
      assume "\<exists>i<length ts. m = ts ! i \<and> x0 < xm \<and>
               (\<forall>j<i. \<forall>z. has_ctime (ts ! j) z \<longrightarrow> z < xm)"
      then obtain i where i: "i < length ts" "m = ts ! i" "x0 < xm"
        "\<forall>j<i. \<forall>z. has_ctime (ts ! j) z \<longrightarrow> z < xm" by blast
      have "\<forall>j<Suc i. \<forall>z. has_ctime ((t # ts) ! j) z \<longrightarrow> z < xm"
      proof (intro allI impI)
        fix j z assume "j < Suc i" "has_ctime ((t # ts) ! j) z"
        then show "z < xm" using i(3,4) y False by (cases j) auto
      qed
      with i have "\<exists>i<length (t # ts). m = (t # ts) ! i \<and> x0 < xm \<and>
               (\<forall>j<i. \<forall>z. has_ctime ((t # ts) ! j) z \<longrightarrow> z < xm)"
        by (intro exI [of _ "Suc i"]) auto
      then show ?thesis ..
    qed
    with m all step False show ?thesis by auto
  qed
qed

text \<open>
  Claim C8. On records that carry a numeric \<^verbatim>\<open>ctime\<close> (as \<^verbatim>\<open>tty2dict\<close> builds them): with
  the flag unset the selection is the identity; with the flag set the empty list stays
  empty, and a non-empty list becomes the one-element list of the record at some index
  \<open>i\<close> whose \<^verbatim>\<open>ctime\<close> is at least that of every record and strictly greater than that of
  every record before \<open>i\<close>: the maximum, and on equal timestamps the earliest one.
\<close>

theorem most_recent_selection:
  assumes "\<forall>t\<in>set ttys. \<exists>x. has_ctime t x"
  shows "select_most_recent False ttys = Inr ttys \<and>
         select_most_recent True [] = Inr [] \<and>
         (ttys \<noteq> [] \<longrightarrow>
           (\<exists>i x. i < length ttys \<and> has_ctime (ttys ! i) x \<and>
              select_most_recent True ttys = Inr [ttys ! i] \<and>
              (\<forall>j<length ttys. \<forall>y. has_ctime (ttys ! j) y \<longrightarrow> y \<le> x) \<and>
              (\<forall>j<i. \<forall>y. has_ctime (ttys ! j) y \<longrightarrow> y < x)))"
proof (intro conjI impI)
  show "select_most_recent False ttys = Inr ttys" by (simp add: select_most_recent_def)
  show "select_most_recent True [] = Inr []" by (simp add: select_most_recent_def)
next
  assume ne: "ttys \<noteq> []"
  then have len: "0 < length ttys" by simp
  from assms len obtain x0 where x0: "has_ctime (ttys ! 0) x0"
    using nth_mem by blast
  from scan_recent_spec [OF x0 assms] obtain m xm where
    m: "scan_recent (ttys ! 0) ttys = Inr m" "has_ctime m xm"
       "\<forall>t\<in>set ttys. \<forall>y. has_ctime t y \<longrightarrow> y \<le> xm"
    and alt: "(m = ttys ! 0 \<and> xm = x0) \<or>
            (\<exists>i<length ttys. m = ttys ! i \<and> x0 < xm \<and>
               (\<forall>j<i. \<forall>y. has_ctime (ttys ! j) y \<longrightarrow> y < xm))"
    by blast
  from alt obtain i where i: "i < length ttys" "m = ttys ! i"
      "\<forall>j<i. \<forall>y. has_ctime (ttys ! j) y \<longrightarrow> y < xm"
    using len by auto
  have sel: "select_most_recent True ttys = Inr [ttys ! i]"
    using m(1) i(2) len by (simp add: select_most_recent_def and_then_def)
  have le: "\<forall>j<length ttys. \<forall>y. has_ctime (ttys ! j) y \<longrightarrow> y \<le> xm"
    using m(3) nth_mem by blast
  from i sel le m(2) show "\<exists>i x. i < length ttys \<and> has_ctime (ttys ! i) x \<and>
              select_most_recent True ttys = Inr [ttys ! i] \<and>
              (\<forall>j<length ttys. \<forall>y. has_ctime (ttys ! j) y \<longrightarrow> y \<le> x) \<and>
              (\<forall>j<i. \<forall>y. has_ctime (ttys ! j) y \<longrightarrow> y < x)"
    by blast
qed

theorem most_recent_selection_witness:
  "has_ctime tty_A 100 \<and> has_ctime tty_B 200 \<and> has_ctime tty_C 100 \<and>
   select_most_recent True [tty_A, tty_B, tty_C] = Inr [tty_B] \<and>
   select_most_recent True [tty_A, tty_C] = Inr [tty_A] \<and>
   select_most_recent False [tty_A, tty_B, tty_C] = Inr [tty_A, tty_B, tty_C]"
proof -
  have c: "has_ctime tty_A 100" "has_ctime tty_B 200" "has_ctime tty_C 100"
    by (simp_all add: tty_A_def tty_B_def tty_C_def)
  have h: "\<forall>t\<in>set [tty_A, tty_B, tty_C]. \<exists>x. has_ctime t x" using c by simp
  have r1: "select_most_recent True [tty_A, tty_B, tty_C] = Inr [tty_B]"
    using c by (simp add: select_most_recent_def and_then_def getitem_def py_gt_def)
  have r2: "select_most_recent True [tty_A, tty_C] = Inr [tty_A]"
    using c by (simp add: select_most_recent_def and_then_def getitem_def py_gt_def)
  from most_recent_selection [OF h] have
    "select_most_recent False [tty_A, tty_B, tty_C] = Inr [tty_A, tty_B, tty_C]" by blast
  with c r1 r2 show ?thesis by simp
qed

subsection \<open>Format validation\<close>

lemma check_combined_Some:
  "\<exists>f\<in>set fmts. f \<notin> set formats_combinable \<Longrightarrow>
   \<exists>f\<in>set fmts. check_combined fmts = Some (not_combinable f) \<or>
                  check_combined fmts = Some (not_supported f)"
  by (induction fmts) auto

lemma check_combined_None:
  "\<forall>f\<in>set fmts. f \<in> set formats_combinable \<Longrightarrow> check_combined fmts = None"
  by (induction fmts) auto

lemma uncombinable_not_combinable:
  "f = ''table'' \<or> f = ''json'' \<Longrightarrow> f \<notin> set formats_combinable"
  by (auto simp: formats_combinable_def)

lemma unsupported_not_combinable:
  "f \<notin> set supported_formats \<Longrightarrow> f \<notin> set formats_combinable"
  by (simp add: supported_formats_def)

lemma check_format_invalid:
  assumes "(length fmts \<noteq> 1 \<and> (''table'' \<in> set fmts \<or> ''json'' \<in> set fmts))
           \<or> (\<exists>f\<in>set fmts. f \<notin> set supported_formats)"
  shows "\<exists>f\<in>set fmts. check_format fmts = Some (not_combinable f) \<or>
                        check_format fmts = Some (not_supported f)"
proof (cases "length fmts = 1")
  case True
  then obtain f where f: "fmts = [f]" by (cases fmts) auto
  with assms have "f \<notin> set supported_formats" by auto
  with f show ?thesis by (simp add: check_format_def)
next
  case False
  from assms have "\<exists>f\<in>set fmts. f \<notin> set formats_combinable"
    using uncombinable_not_combinable unsupported_not_combinable by blast
  from check_combined_Some [OF this] False show ?thesis by (simp add: check_format_def)
qed

text \<open>
  Claim C4, as amended. When \<^verbatim>\<open>--format\<close> names several formats and one of them is
  \<^verbatim>\<open>table\<close> or \<^verbatim>\<open>json\<close>, or names a format that is not supported, the run ends before
  the devices are asked for, with a message about one of the requested names on standard
  error, nothing on standard output, and exit status 1: non-zero, but the same status
  as the one for no matching device.
\<close>

theorem invalid_format_exit:
  assumes "(length (format ns) \<noteq> 1 \<and> (''table'' \<in> set (format ns) \<or> ''json'' \<in> set (format ns)))
           \<or> (\<exists>f\<in>set (format ns). f \<notin> set supported_formats)"
  shows "\<exists>f\<in>set (format ns). \<exists>x.
           (x = not_combinable f \<or> x = not_supported f) \<and>
           print_ttys L env devs ns =
             \<lparr>stdout = [], stderr = exit_stderr x, exit_code = 1, queried = False\<rparr> \<and>
           exit_stderr x \<noteq> Quiet"
proof -
  from check_format_invalid [OF assms] obtain f x where
    f: "f \<in> set (format ns)" and x: "x = not_combinable f \<or> x = not_supported f"
    and c: "check_format (format ns) = Some x" by blast
  from x have st: "exit_status x = 1" "exit_stderr x \<noteq> Quiet"
    by (auto simp: not_combinable_def not_supported_def)
  from c st have "print_ttys L env devs ns =
             \<lparr>stdout = [], stderr = exit_stderr x, exit_code = 1, queried = False\<rparr>"
    by (simp add: print_ttys_def parse_args_def exited_def)
  with f x st show ?thesis by blast
qed

text \<open>
  The claim as stated asks for a status distinct from 0 and from the no-match status 1.
  \<^verbatim>\<open>sys.exit\<close> with a string gives status 1, and so does a run that finds no device.
\<close>

theorem invalid_format_exit_code_counterexample:
  "exit_code (print_ttys lib0 Map.empty [dev_A] (args0\<lparr>format := [''table'', ''json'']\<rparr>)) = 1 \<and>
   exit_code (print_ttys lib0 Map.empty [] args0) = 1 \<and>
   \<not> (exit_code (print_ttys lib0 Map.empty [dev_A] (args0\<lparr>format := [''table'', ''json'']\<rparr>)) \<noteq> 0 \<and>
      exit_code (print_ttys lib0 Map.empty [dev_A] (args0\<lparr>format := [''table'', ''json'']\<rparr>)) \<noteq> 1)"
  by (simp add: print_ttys_def parse_args_def exited_def check_format_def args0_def
      formats_combinable_def formats_uncombinable_def not_combinable_def supported_formats_def
      generate_filters_def append_filter_def and_then_def select_most_recent_def)

theorem invalid_format_exit_witness:
  "''json'' \<in> set (format (args0\<lparr>format := [''path'', ''json'']\<rparr>)) \<and>
   print_ttys lib0 Map.empty [dev_A] (args0\<lparr>format := [''path'', ''json'']\<rparr>) =
     \<lparr>stdout = [],
      stderr = Message (''Format '' @ [CHR 0x22] @ ''json'' @ [CHR 0x22]
                        @ '' cannot be combined with other formats'' @ [CHR 0x0A]),
      exit_code = 1, queried = False\<rparr>"
proof -
  let ?ns = "args0\<lparr>format := [''path'', ''json'']\<rparr>"
  have h: "(length (format ?ns) \<noteq> 1 \<and> (''table'' \<in> set (format ?ns) \<or> ''json'' \<in> set (format ?ns)))
           \<or> (\<exists>f\<in>set (format ?ns). f \<notin> set supported_formats)"
    by simp
  from invalid_format_exit [OF h, of lib0 Map.empty "[dev_A]"]
  have "queried (print_ttys lib0 Map.empty [dev_A] ?ns) = False" by auto
  moreover have "print_ttys lib0 Map.empty [dev_A] ?ns =
     \<lparr>stdout = [],
      stderr = Message (''Format '' @ [CHR 0x22] @ ''json'' @ [CHR 0x22]
                        @ '' cannot be combined with other formats'' @ [CHR 0x0A]),
      exit_code = 1, queried = False\<rparr>"
    by (simp add: print_ttys_def parse_args_def exited_def check_format_def args0_def
      formats_combinable_def formats_uncombinable_def not_combinable_def)
  ultimately show ?thesis by simp
qed

subsection \<open>Attribute extraction\<close>

lemma unescape_Inr: "unescape L v = Inr m \<Longrightarrow> \<exists>s. v = PStr s"
  by (cases v) (simp_all add: unescape_def)

lemma py_int_Inr: "py_int L v = Inr n \<Longrightarrow> \<exists>s. v = PStr s \<and> int_of_str L s = Inr n"
  by (cases v) (simp_all add: py_int_def)

lemma stat_ctime_Inr: "stat_ctime L v = Inr c \<Longrightarrow> \<exists>p. v = PStr p \<and> os_stat_ctime L p = Inr c"
  by (cases v) (simp_all add: stat_ctime_def)

lemma dev_get_PStr: "(dev_get d k = PStr s) = (d k = Some s)"
  by (simp add: dev_get_def split: option.splits)

lemma dev_get_PNone: "(dev_get d k = PNone) = (d k = None)"
  by (simp add: dev_get_def split: option.splits)

lemma tty2dict_Inr:
  "(tty2dict L d = Inr t) =
     (\<exists>p ct me m ve v ie n.
        d ''DEVNAME'' = Some p \<and> os_stat_ctime L p = Inr ct \<and>
        d ''ID_MODEL_ENC'' = Some me \<and> unescape L (PStr me) = Inr m \<and>
        d ''ID_VENDOR_ENC'' = Some ve \<and> unescape L (PStr ve) = Inr v \<and>
        d ''ID_USB_INTERFACE_NUM'' = Some ie \<and> int_of_str L ie = Inr n \<and>
        t = [(''path'', PStr p), (''ctime'', PFloat ct),
             (''serial'', dev_get d ''ID_SERIAL_SHORT''),
             (''driver'', dev_get d ''ID_USB_DRIVER''),
             (''model'', PStr m),
             (''model_db'', dev_get d ''ID_MODEL_FROM_DATABASE''),
             (''vendor'', PStr v),
             (''vendor_db'', dev_get d ''ID_VENDOR_FROM_DATABASE''),
             (''iface_num'', PStr (str_int n))])"
  (is "?l = ?r")
proof
  assume ?l
  then obtain ct m v n where
    1: "stat_ctime L (dev_get d ''DEVNAME'') = Inr ct" and
    2: "unescape L (dev_get d ''ID_MODEL_ENC'') = Inr m" and
    3: "unescape L (dev_get d ''ID_VENDOR_ENC'') = Inr v" and
    4: "py_int L (dev_get d ''ID_USB_INTERFACE_NUM'') = Inr n" and
    t: "t = [(''path'', dev_get d ''DEVNAME''), (''ctime'', PFloat ct),
             (''serial'', dev_get d ''ID_SERIAL_SHORT''),
             (''driver'', dev_get d ''ID_USB_DRIVER''),
             (''model'', PStr m),
             (''model_db'', dev_get d ''ID_MODEL_FROM_DATABASE''),
             (''vendor'', PStr v),
             (''vendor_db'', dev_get d ''ID_VENDOR_FROM_DATABASE''),
             (''iface_num'', PStr (str_int n))]"
    by (auto simp: tty2dict_def Let_def split: sum.splits)
  from stat_ctime_Inr [OF 1] obtain p where p: "dev_get d ''DEVNAME'' = PStr p" "os_stat_ctime L p = Inr ct" by blast
  from unescape_Inr [OF 2] obtain me where me: "dev_get d ''ID_MODEL_ENC'' = PStr me" by blast
  from unescape_Inr [OF 3] obtain ve where ve: "dev_get d ''ID_VENDOR_ENC'' = PStr ve" by blast
  from py_int_Inr [OF 4] obtain ie where ie: "dev_get d ''ID_USB_INTERFACE_NUM'' = PStr ie" "int_of_str L ie = Inr n" by blast
  from 2 me have um: "unescape L (PStr me) = Inr m" by simp
  from 3 ve have uv: "unescape L (PStr ve) = Inr v" by simp
  from p(1) have dp: "d ''DEVNAME'' = Some p" by (simp add: dev_get_PStr)
  from me have dm: "d ''ID_MODEL_ENC'' = Some me" by (simp add: dev_get_PStr)
  from ve have dv: "d ''ID_VENDOR_ENC'' = Some ve" by (simp add: dev_get_PStr)
  from ie(1) have di: "d ''ID_USB_INTERFACE_NUM'' = Some ie" by (simp add: dev_get_PStr)
  from t p(1) have "t = [(''path'', PStr p), (''ctime'', PFloat ct),
             (''serial'', dev_get d ''ID_SERIAL_SHORT''),
             (''driver'', dev_get d ''ID_USB_DRIVER''),
             (''model'', PStr m),
             (''model_db'', dev_get d ''ID_MODEL_FROM_DATABASE''),
             (''vendor'', PStr v),
             (''vendor_db'', dev_get d ''ID_VENDOR_FROM_DATABASE''),
             (''iface_num'', PStr (str_int n))]" by simp
  with dp p(2) dm um dv uv di ie(2) show ?r by blast
next
  assume ?r
  then show ?l
    by (auto simp: tty2dict_def Let_def dev_get_def stat_ctime_def py_int_def)
qed

lemma tty2dict_absent_processed:
  assumes "d ''ID_MODEL_ENC'' = None \<or> d ''ID_VENDOR_ENC'' = None \<or> d ''ID_USB_INTERFACE_NUM'' = None"
  shows "\<exists>e. tty2dict L d = Inl e"
proof (cases "tty2dict L d")
  case (Inl e)
  then show ?thesis by blast
next
  case (Inr t)
  with assms show ?thesis unfolding tty2dict_Inr by auto
qed

lemma tty2dict_succeeds_iff:
  "(\<exists>t. tty2dict L d = Inr t) =
     (\<exists>p ct me m ve v ie n.
        d ''DEVNAME'' = Some p \<and> os_stat_ctime L p = Inr ct \<and>
        d ''ID_MODEL_ENC'' = Some me \<and> unescape L (PStr me) = Inr m \<and>
        d ''ID_VENDOR_ENC'' = Some ve \<and> unescape L (PStr ve) = Inr v \<and>
        d ''ID_USB_INTERFACE_NUM'' = Some ie \<and> int_of_str L ie = Inr n)"
  unfolding tty2dict_Inr by blast

lemma tty2dict_model_absent:
  "stat_ctime L (dev_get d ''DEVNAME'') = Inr ct \<Longrightarrow> d ''ID_MODEL_ENC'' = None \<Longrightarrow>
   tty2dict L d = Inl TypeError"
  by (simp add: tty2dict_def Let_def dev_get_def unescape_def)

text \<open>
  Claim C2, as amended. Extraction succeeds exactly when the device node can be stat'ed
  and \<^verbatim>\<open>ID_MODEL_ENC\<close>, \<^verbatim>\<open>ID_VENDOR_ENC\<close> and \<^verbatim>\<open>ID_USB_INTERFACE_NUM\<close> are present,
  unescape and parse as an integer: the serial, the driver and the two database names
  play no part in it. When it succeeds, each of those four fields is the property, or
  \<^verbatim>\<open>None\<close> when the property is absent; model and vendor are the unescaped properties; and
  \<^verbatim>\<open>iface_num\<close> is the decimal form of the parsed integer. The unescaping and the integer
  parse run whether the property is present or not: an absent one of the three makes the
  extraction fail, with a TypeError when it is the model.
\<close>

theorem tty2dict_optional_fields:
  "((\<exists>t. tty2dict L d = Inr t) =
     (\<exists>p ct me m ve v ie n.
        d ''DEVNAME'' = Some p \<and> os_stat_ctime L p = Inr ct \<and>
        d ''ID_MODEL_ENC'' = Some me \<and> unescape L (PStr me) = Inr m \<and>
        d ''ID_VENDOR_ENC'' = Some ve \<and> unescape L (PStr ve) = Inr v \<and>
        d ''ID_USB_INTERFACE_NUM'' = Some ie \<and> int_of_str L ie = Inr n))
   \<and> (tty2dict L d = Inr t \<longrightarrow>
      map_of t ''serial'' = Some (dev_get d ''ID_SERIAL_SHORT'') \<and>
      map_of t ''driver'' = Some (dev_get d ''ID_USB_DRIVER'') \<and>
      map_of t ''model_db'' = Some (dev_get d ''ID_MODEL_FROM_DATABASE'') \<and>
      map_of t ''vendor_db'' = Some (dev_get d ''ID_VENDOR_FROM_DATABASE'') \<and>
      (\<exists>me m. d ''ID_MODEL_ENC'' = Some me \<and> unescape L (PStr me) = Inr m \<and>
               map_of t ''model'' = Some (PStr m)) \<and>
      (\<exists>ve v. d ''ID_VENDOR_ENC'' = Some ve \<and> unescape L (PStr ve) = Inr v \<and>
               map_of t ''vendor'' = Some (PStr v)) \<and>
      (\<exists>ie n. d ''ID_USB_INTERFACE_NUM'' = Some ie \<and> int_of_str L ie = Inr n \<and>
               map_of t ''iface_num'' = Some (PStr (str_int n))))
   \<and> (\<forall>k. d k = None \<longrightarrow> dev_get d k = PNone)
   \<and> (d ''ID_MODEL_ENC'' = None \<or> d ''ID_VENDOR_ENC'' = None \<or>
        d ''ID_USB_INTERFACE_NUM'' = None \<longrightarrow> (\<exists>e. tty2dict L d = Inl e))
   \<and> (\<forall>ct. stat_ctime L (dev_get d ''DEVNAME'') = Inr ct \<and> d ''ID_MODEL_ENC'' = None \<longrightarrow>
        tty2dict L d = Inl TypeError)"
proof (intro conjI impI allI)
  assume "tty2dict L d = Inr t"
  then obtain p ct me m ve v ie n where
    h: "d ''ID_MODEL_ENC'' = Some me" "unescape L (PStr me) = Inr m"
       "d ''ID_VENDOR_ENC'' = Some ve" "unescape L (PStr ve) = Inr v"
       "d ''ID_USB_INTERFACE_NUM'' = Some ie" "int_of_str L ie = Inr n"
    and t: "t = [(''path'', PStr p), (''ctime'', PFloat ct),
             (''serial'', dev_get d ''ID_SERIAL_SHORT''),
             (''driver'', dev_get d ''ID_USB_DRIVER''),
             (''model'', PStr m),
             (''model_db'', dev_get d ''ID_MODEL_FROM_DATABASE''),
             (''vendor'', PStr v),
             (''vendor_db'', dev_get d ''ID_VENDOR_FROM_DATABASE''),
             (''iface_num'', PStr (str_int n))]"
    unfolding tty2dict_Inr by blast
  show "map_of t ''serial'' = Some (dev_get d ''ID_SERIAL_SHORT'')" by (simp add: t)
  show "map_of t ''driver'' = Some (dev_get d ''ID_USB_DRIVER'')" by (simp add: t)
  show "map_of t ''model_db'' = Some (dev_get d ''ID_MODEL_FROM_DATABASE'')" by (simp add: t)
  show "map_of t ''vendor_db'' = Some (dev_get d ''ID_VENDOR_FROM_DATABASE'')" by (simp add: t)
  show "\<exists>me m. d ''ID_MODEL_ENC'' = Some me \<and> unescape L (PStr me) = Inr m \<and>
               map_of t ''model'' = Some (PStr m)" using h by (simp add: t)
  show "\<exists>ve v. d ''ID_VENDOR_ENC'' = Some ve \<and> unescape L (PStr ve) = Inr v \<and>
               map_of t ''vendor'' = Some (PStr v)" using h by (simp add: t)
  show "\<exists>ie n. d ''ID_USB_INTERFACE_NUM'' = Some ie \<and> int_of_str L ie = Inr n \<and>
               map_of t ''iface_num'' = Some (PStr (str_int n))" using h by (simp add: t)
next
  show "(\<exists>t. tty2dict L d = Inr t) =
     (\<exists>p ct me m ve v ie n.
        d ''DEVNAME'' = Some p \<and> os_stat_ctime L p = Inr ct \<and>
        d ''ID_MODEL_ENC'' = Some me \<and> unescape L (PStr me) = Inr m \<and>
        d ''ID_VENDOR_ENC'' = Some ve \<and> unescape L (PStr ve) = Inr v \<and>
        d ''ID_USB_INTERFACE_NUM'' = Some ie \<and> int_of_str L ie = Inr n)"
    by (rule tty2dict_succeeds_iff)
next
  fix k assume "d k = None" then show "dev_get d k = PNone" by (simp add: dev_get_def)
next
  assume "d ''ID_MODEL_ENC'' = None \<or> d ''ID_VENDOR_ENC'' = None \<or>
        d ''ID_USB_INTERFACE_NUM'' = None"
  then show "\<exists>e. tty2dict L d = Inl e" by (rule tty2dict_absent_processed)
next
  fix ct assume "stat_ctime L (dev_get d ''DEVNAME'') = Inr ct \<and> d ''ID_MODEL_ENC'' = None"
  then show "tty2dict L d = Inl TypeError" using tty2dict_model_absent by blast
qed

lemma tty2dict_dev_C: "tty2dict lib0 dev_C = Inr tty_C"
  by (simp add: tty2dict_def lib0_def dev_C_def dev_of_def tty_C_def dev_get_def
      stat_ctime_def unescape_def py_int_def str_int_def str_nat.simps digit_char_def)

theorem tty2dict_optional_fields_witness:
  "tty2dict lib0 dev_C = Inr tty_C \<and> dev_C ''ID_SERIAL_SHORT'' = None \<and>
   map_of tty_C ''serial'' = Some PNone \<and> map_of tty_C ''iface_num'' = Some (PStr ''0'') \<and>
   dev_D ''ID_MODEL_ENC'' = None \<and> (\<exists>e. tty2dict lib0 dev_D = Inl e)"
proof -
  have a: "dev_C ''ID_SERIAL_SHORT'' = None" by (simp add: dev_C_def dev_of_def)
  have b: "dev_D ''ID_MODEL_ENC'' = None" by (simp add: dev_D_def dev_of_def)
  note th = tty2dict_optional_fields [of lib0 dev_C tty_C]
  from th tty2dict_dev_C a have "map_of tty_C ''serial'' = Some PNone" by simp
  moreover have "map_of tty_C ''iface_num'' = Some (PStr ''0'')" by (simp add: tty_C_def)
  moreover from tty2dict_optional_fields [of lib0 dev_D tty_C] b
  have "\<exists>e. tty2dict lib0 dev_D = Inl e" by blast
  ultimately show ?thesis using tty2dict_dev_C a b by simp
qed

text \<open>
  The claim as stated lets every optional property be absent. A device without
  \<^verbatim>\<open>ID_MODEL_ENC\<close> makes \<^verbatim>\<open>unescape(None)\<close> raise.
\<close>

theorem tty2dict_absent_model_counterexample:
  "dev_D ''ID_MODEL_ENC'' = None \<and> tty2dict lib0 dev_D = Inl TypeError"
  by (simp add: tty2dict_def lib0_def dev_D_def dev_of_def dev_get_def
      stat_ctime_def unescape_def)

subsection \<open>Table rendering and the records\<close>

lemma singleton_iff: "(length xs = Suc 0 \<and> xs ! 0 = y) = (xs = [y])"
  by (cases xs) auto

lemma ctime_to_text_spec:
  assumes "\<forall>t\<in>set ttys. \<exists>x. has_ctime t x"
  shows "\<exists>ttys'. ctime_to_text L ttys = (ttys', None) \<and> length ttys' = length ttys \<and>
           (\<forall>i<length ttys. \<forall>x. has_ctime (ttys ! i) x \<longrightarrow>
              ttys' ! i = AList.update ''ctime'' (PStr (strftime_HMS L x)) (ttys ! i))"
  using assms
proof (induction ttys)
  case Nil
  show ?case by simp
next
  case (Cons t ts)
  from Cons.prems obtain x where x: "has_ctime t x" by auto
  from Cons.prems have "\<forall>t\<in>set ts. \<exists>x. has_ctime t x" by simp
  from Cons.IH [OF this] obtain ts' where
    ts': "ctime_to_text L ts = (ts', None)" "length ts' = length ts"
      "\<forall>i<length ts. \<forall>x. has_ctime (ts ! i) x \<longrightarrow>
              ts' ! i = AList.update ''ctime'' (PStr (strftime_HMS L x)) (ts ! i)"
    by blast
  let ?t' = "AList.update ''ctime'' (PStr (strftime_HMS L x)) t"
  have eq: "ctime_to_text L (t # ts) = (?t' # ts', None)"
    using x ts'(1) by (simp add: getitem_def localtime_HMS_def)
  have "\<forall>i<length (t # ts). \<forall>y. has_ctime ((t # ts) ! i) y \<longrightarrow>
              (?t' # ts') ! i = AList.update ''ctime'' (PStr (strftime_HMS L y)) ((t # ts) ! i)"
  proof (intro allI impI)
    fix i y assume "i < length (t # ts)" "has_ctime ((t # ts) ! i) y"
    then show "(?t' # ts') ! i = AList.update ''ctime'' (PStr (strftime_HMS L y)) ((t # ts) ! i)"
      using x ts'(3) by (cases i) auto
  qed
  with eq ts'(2) show ?case by simp
qed

text \<open>
  Claim C1, as amended. Table rendering writes into the records: each record's
  \<^verbatim>\<open>ctime\<close> is replaced, in the dict itself, by its \<^verbatim>\<open>HH:MM:SS\<close> text. Nothing else
  changes: the list keeps its length, each dict keeps its keys in their order, and every
  field but \<^verbatim>\<open>ctime\<close> keeps its value. The JSON and the field formats leave the records
  as they are. (The assignment runs inside \<^verbatim>\<open>print_results\<close>, after exclusion, filtering
  and selection, which \<open>final_ttys\<close> computes from the numeric \<^verbatim>\<open>ctime\<close>.)
\<close>

theorem table_rewrites_ctime_only:
  assumes "\<forall>t\<in>set ttys. \<exists>x. has_ctime t x"
  shows "(format a = [''table''] \<longrightarrow>
           length (snd (print_results L a ttys)) = length ttys \<and>
           (\<forall>i<length ttys. \<forall>x. has_ctime (ttys ! i) x \<longrightarrow>
              map_of (snd (print_results L a ttys) ! i) ''ctime'' = Some (PStr (strftime_HMS L x)) \<and>
              map fst (snd (print_results L a ttys) ! i) = map fst (ttys ! i) \<and>
              (\<forall>k. k \<noteq> ''ctime'' \<longrightarrow>
                 map_of (snd (print_results L a ttys) ! i) k = map_of (ttys ! i) k)))
       \<and> (format a \<noteq> [''table''] \<longrightarrow> snd (print_results L a ttys) = ttys)"
proof (intro conjI impI)
  assume "format a \<noteq> [''table'']"
  then show "snd (print_results L a ttys) = ttys"
    by (simp add: print_results_def singleton_iff)
next
  assume f: "format a = [''table'']"
  from ctime_to_text_spec [OF assms, of L] obtain ttys' where
    t: "ctime_to_text L ttys = (ttys', None)" "length ttys' = length ttys"
      "\<forall>i<length ttys. \<forall>x. has_ctime (ttys ! i) x \<longrightarrow>
              ttys' ! i = AList.update ''ctime'' (PStr (strftime_HMS L x)) (ttys ! i)"
    by blast
  have s: "snd (print_results L a ttys) = ttys'"
    using f t(1) by (simp add: print_results_def)
  show "length (snd (print_results L a ttys)) = length ttys" using s t(2) by simp
  show "\<forall>i<length ttys. \<forall>x. has_ctime (ttys ! i) x \<longrightarrow>
              map_of (snd (print_results L a ttys) ! i) ''ctime'' = Some (PStr (strftime_HMS L x)) \<and>
              map fst (snd (print_results L a ttys) ! i) = map fst (ttys ! i) \<and>
              (\<forall>k. k \<noteq> ''ctime'' \<longrightarrow>
                 map_of (snd (print_results L a ttys) ! i) k = map_of (ttys ! i) k)"
  proof (intro allI impI)
    fix i x assume i: "i < length ttys" and x: "has_ctime (ttys ! i) x"
    with t(3) s have e: "snd (print_results L a ttys) ! i =
        AList.update ''ctime'' (PStr (strftime_HMS L x)) (ttys ! i)" by simp
    from x have "''ctime'' \<in> fst ` set (ttys ! i)"
      using map_of_eq_None_iff [of "ttys ! i" "''ctime''"] by auto
    then have "map fst (AList.update ''ctime'' (PStr (strftime_HMS L x)) (ttys ! i)) = map fst (ttys ! i)"
      by (simp add: update_keys)
    with e show "map_of (snd (print_results L a ttys) ! i) ''ctime'' = Some (PStr (strftime_HMS L x)) \<and>
              map fst (snd (print_results L a ttys) ! i) = map fst (ttys ! i) \<and>
              (\<forall>k. k \<noteq> ''ctime'' \<longrightarrow>
                 map_of (snd (print_results L a ttys) ! i) k = map_of (ttys ! i) k)"
      by (simp add: update_conv')
  qed
qed

lemma hms_utc_100: "hms_utc 100 = ''00:01:40''"
  by (simp add: hms_utc_def two_digits_def digit_char_def)

text \<open>
  The claim as stated says that \<^verbatim>\<open>ctime\<close> is equal to its value at construction after
  table output. It is the float 100 before and the string \<^verbatim>\<open>00:01:40\<close> after.
\<close>

theorem table_mutates_ctime_counterexample:
  "map_of tty_A ''ctime'' = Some (PFloat 100) \<and>
   map_of (snd (print_results lib0 args0 [tty_A]) ! 0) ''ctime'' = Some (PStr ''00:01:40'') \<and>
   snd (print_results lib0 args0 [tty_A]) \<noteq> [tty_A]"
  by (simp add: print_results_def args0_def getitem_def localtime_HMS_def lib0_def
      hms_utc_100 tty_A_def)

theorem table_rewrites_ctime_only_witness:
  "has_ctime tty_A 100 \<and> format args0 = [''table''] \<and>
   map_of (snd (print_results lib0 args0 [tty_A]) ! 0) ''ctime'' = Some (PStr ''00:01:40'') \<and>
   map_of (snd (print_results lib0 args0 [tty_A]) ! 0) ''serial'' = Some (PStr ''AAA'') \<and>
   snd (print_results lib0 (args0\<lparr>format := [''json'']\<rparr>) [tty_A]) = [tty_A]"
proof -
  have c: "has_ctime tty_A 100" by (simp add: tty_A_def)
  have f: "format args0 = [''table'']" by (simp add: args0_def)
  have h: "\<forall>t\<in>set [tty_A]. \<exists>x. has_ctime t x" using c by simp
  have s: "strftime_HMS lib0 100 = ''00:01:40''" by (simp add: lib0_def hms_utc_100)
  have k: "map_of tty_A ''serial'' = Some (PStr ''AAA'')" by (simp add: tty_A_def)
  from table_rewrites_ctime_only [OF h, of args0 lib0] f c s k
  have "map_of (snd (print_results lib0 args0 [tty_A]) ! 0) ''ctime'' = Some (PStr ''00:01:40'') \<and>
        map_of (snd (print_results lib0 args0 [tty_A]) ! 0) ''serial'' = Some (PStr ''AAA'')"
    by simp
  moreover from table_rewrites_ctime_only [OF h, of "args0\<lparr>format := [''json'']\<rparr>" lib0]
  have "snd (print_results lib0 (args0\<lparr>format := [''json'']\<rparr>) [tty_A]) = [tty_A]" by simp
  ultimately show ?thesis using c f by simp
qed

subsection \<open>The field formats\<close>

lemma is_str_iff: "is_str v = (\<exists>s. v = Some (PStr s))"
  by (cases v rule: is_str.cases) auto

lemma join_Cons: "join sep (x # ys) = x @ concat (map ((@) sep) ys)"
  by (induction ys arbitrary: x) auto

lemma drop_sep_join: "drop (length sep) (concat (map ((@) sep) xs)) = join sep xs"
  by (cases xs) (simp_all add: join_Cons)

lemma build_line_all_str:
  "all_str fmts tty \<Longrightarrow>
   build_line sep tty fmts line =
     Inr (line @ concat (map ((@) sep) (map (\<lambda>fmt. quoted sep (str_of (map_of tty fmt))) fmts)))"
proof (induction fmts arbitrary: line)
  case Nil
  show ?case by simp
next
  case (Cons f fs)
  from Cons.prems obtain s where s: "map_of tty f = Some (PStr s)" and r: "all_str fs tty"
    by (auto simp: all_str_def is_str_iff)
  show ?case using s Cons.IH [OF r] by (simp add: getitem_def quoted_def)
qed

lemma build_line_not_all_str:
  "\<not> all_str fmts tty \<Longrightarrow>
   \<exists>e. build_line sep tty fmts line = Inl e \<and>
       ((\<forall>f\<in>set fmts. map_of tty f \<noteq> None) \<longrightarrow> e = AttributeError)"
proof (induction fmts arbitrary: line)
  case Nil
  then show ?case by (simp add: all_str_def)
next
  case (Cons f fs)
  show ?case
  proof (cases "map_of tty f")
    case None
    then show ?thesis by (simp add: getitem_def)
  next
    case (Some v)
    show ?thesis
    proof (cases v)
      case PNone
      with Some show ?thesis by (simp add: getitem_def)
    next
      case (PFloat x)
      with Some show ?thesis by (simp add: getitem_def)
    next
      case (PStr s)
      with Some Cons.prems have "\<not> all_str fs tty" by (simp add: all_str_def)
      from Cons.IH [OF this] Some PStr show ?thesis by (simp add: getitem_def)
    qed
  qed
qed

lemma build_line_field_line:
  assumes "all_str fmts tty"
  shows "\<exists>line. build_line sep tty fmts [] = Inr line \<and>
           drop (length sep) line @ [CHR 0x0A] = field_line sep fmts tty"
proof -
  let ?xs = "map (\<lambda>fmt. quoted sep (str_of (map_of tty fmt))) fmts"
  have "build_line sep tty fmts [] = Inr (concat (map ((@) sep) ?xs))"
    using build_line_all_str [OF assms, of sep "[]"] by simp
  moreover have "drop (length sep) (concat (map ((@) sep) ?xs)) @ [CHR 0x0A]
                 = field_line sep fmts tty"
    unfolding field_line_def drop_sep_join ..
  ultimately show ?thesis by blast
qed

lemma print_lines_Cons_ok:
  assumes "all_str fmts t"
  shows "print_lines sep fmts (t # ts) =
           (field_line sep fmts t @ fst (print_lines sep fmts ts), snd (print_lines sep fmts ts))"
proof -
  from build_line_field_line [OF assms, of sep] obtain line where
    "build_line sep t fmts [] = Inr line"
    "drop (length sep) line @ [CHR 0x0A] = field_line sep fmts t" by blast
  then show ?thesis by (simp add: then_write_def)
qed

lemma print_lines_Cons_bad:
  assumes "\<not> all_str fmts t"
  shows "\<exists>e. print_lines sep fmts (t # ts) = ([], Some e) \<and>
           ((\<forall>f\<in>set fmts. map_of t f \<noteq> None) \<longrightarrow> e = AttributeError)"
proof -
  from build_line_not_all_str [OF assms, of sep "[]"] obtain e where
    "build_line sep t fmts [] = Inl e"
    "(\<forall>f\<in>set fmts. map_of t f \<noteq> None) \<longrightarrow> e = AttributeError" by blast
  then show ?thesis by simp
qed

lemma print_lines_out:
  "fst (print_lines sep fmts ttys) =
     concat (map (field_line sep fmts) (takeWhile (all_str fmts) ttys))"
proof (induction ttys)
  case Nil
  show ?case by simp
next
  case (Cons t ts)
  show ?case
  proof (cases "all_str fmts t")
    case True
    then show ?thesis using Cons.IH by (simp add: print_lines_Cons_ok del: print_lines.simps)
  next
    case False
    from print_lines_Cons_bad [OF False, of sep ts] False show ?thesis by auto
  qed
qed

lemma print_lines_ok_iff:
  "(snd (print_lines sep fmts ttys) = None) = list_all (all_str fmts) ttys"
proof (induction ttys)
  case Nil
  show ?case by simp
next
  case (Cons t ts)
  show ?case
  proof (cases "all_str fmts t")
    case True
    then show ?thesis using Cons.IH by (simp add: print_lines_Cons_ok del: print_lines.simps)
  next
    case False
    from print_lines_Cons_bad [OF False, of sep ts] False show ?thesis by auto
  qed
qed

lemma print_lines_error:
  "\<forall>t\<in>set ttys. \<forall>f\<in>set fmts. map_of t f \<noteq> None \<Longrightarrow> \<not> list_all (all_str fmts) ttys \<Longrightarrow>
   snd (print_lines sep fmts ttys) = Some AttributeError"
proof (induction ttys)
  case Nil
  then show ?case by simp
next
  case (Cons t ts)
  show ?case
  proof (cases "all_str fmts t")
    case True
    with Cons show ?thesis by (simp add: print_lines_Cons_ok del: print_lines.simps)
  next
    case False
    from print_lines_Cons_bad [OF False, of sep ts] Cons.prems(1) show ?thesis by auto
  qed
qed

subsection \<open>The table\<close>

lemma is_opt_str_iff: "is_opt_str v = (v = Some PNone \<or> (\<exists>s. v = Some (PStr s)))"
  by (cases v rule: is_opt_str.cases) auto

lemma is_float_iff: "is_float v = (\<exists>x. v = Some (PFloat x))"
  by (cases v rule: is_float.cases) auto

lemma snd_then_write:
  "snd (then_write p q) = (case snd p of Some e \<Rightarrow> Some e | None \<Rightarrow> snd q)"
  by (simp add: then_write_def split: option.splits)

lemma scan_item_ok:
  assumes "\<forall>(i, h)\<in>set pairs. i < length lengths \<and> is_opt_str (map_of item h)"
    and "\<forall>j<length lengths. 4 \<le> lengths ! j"
  shows "\<exists>ls. scan_item L item pairs lengths = Inr ls \<and> length ls = length lengths \<and>
              (\<forall>j<length ls. 4 \<le> ls ! j)"
  using assms
proof (induction pairs arbitrary: lengths)
  case Nil
  then show ?case by simp
next
  case (Cons p ps)
  obtain i h where p: "p = (i, h)" by (cases p)
  from Cons.prems(1) p have i: "i < length lengths" and v: "is_opt_str (map_of item h)"
    and rest: "\<forall>(i, h)\<in>set ps. i < length lengths \<and> is_opt_str (map_of item h)"
    by auto
  from v consider "map_of item h = Some PNone" | s where "map_of item h = Some (PStr s)"
    unfolding is_opt_str_iff by blast
  then show ?case
  proof cases
    case 1
    from Cons.prems(2) i have "4 \<le> lengths ! i" by simp
    then have "scan_item L item (p # ps) lengths = scan_item L item ps lengths"
      using 1 p by (simp add: getitem_def py_str_def)
    with Cons.IH [OF rest Cons.prems(2)] show ?thesis by simp
  next
    case 2
    show ?thesis
    proof (cases "length s > lengths ! i")
      case True
      let ?ls = "lengths[i := length s]"
      have e: "scan_item L item (p # ps) lengths = scan_item L item ps ?ls"
        using 2 p True by (simp add: getitem_def py_str_def py_len_def)
      have r: "\<forall>(i, h)\<in>set ps. i < length ?ls \<and> is_opt_str (map_of item h)"
        using rest by simp
      have g: "\<forall>j<length ?ls. 4 \<le> ?ls ! j"
      proof (intro allI impI)
        fix j assume "j < length ?ls"
        then show "4 \<le> ?ls ! j"
          using Cons.prems(2) True i by (cases "j = i") auto
      qed
      from Cons.IH [OF r g] e show ?thesis by simp
    next
      case False
      then have "scan_item L item (p # ps) lengths = scan_item L item ps lengths"
        using 2 p by (simp add: getitem_def py_str_def)
      with Cons.IH [OF rest Cons.prems(2)] show ?thesis by simp
    qed
  qed
qed

lemma scan_data_ok:
  assumes "\<forall>item\<in>set data. \<forall>h\<in>set headers. is_opt_str (map_of item h)"
    and "length lengths = length headers" and "\<forall>j<length lengths. 4 \<le> lengths ! j"
  shows "\<exists>ls. scan_data L data headers lengths = Inr ls \<and> length ls = length headers"
  using assms
proof (induction data arbitrary: lengths)
  case Nil
  then show ?case by simp
next
  case (Cons item data)
  have "\<forall>(i, h)\<in>set (enumerate 0 headers). i < length lengths \<and> is_opt_str (map_of item h)"
    using Cons.prems(1,2) by (auto simp: in_set_enumerate_eq)
  from scan_item_ok [OF this Cons.prems(3), of L] obtain ls where
    ls: "scan_item L item (enumerate 0 headers) lengths = Inr ls" "length ls = length lengths"
        "\<forall>j<length ls. 4 \<le> ls ! j" by blast
  from Cons.prems(1) have "\<forall>item\<in>set data. \<forall>h\<in>set headers. is_opt_str (map_of item h)" by simp
  from Cons.IH [OF this _ ls(3)] ls(2) Cons.prems(2) ls(1) show ?case by simp
qed

lemma row_cells_ok:
  "\<forall>(h, l)\<in>set pairs. map_of item h \<noteq> None \<Longrightarrow> snd (row_cells L item pairs) = None"
  by (induction pairs) (auto simp: getitem_def snd_then_write)

lemma table_rows_ok:
  assumes "headers \<noteq> []" and "\<forall>item\<in>set data. \<forall>h\<in>set headers. map_of item h \<noteq> None"
  shows "snd (table_rows L data headers lengths) = None"
  using assms(2)
proof (induction data)
  case Nil
  show ?case by simp
next
  case (Cons item data)
  from assms(1) Cons.prems obtain v where v: "map_of item (hd headers) = Some v"
    by (cases headers) auto
  have "\<forall>(h, l)\<in>set (zip (tl headers) (tl lengths)). map_of item h \<noteq> None"
    using Cons.prems assms(1) by (auto dest!: set_zip_leftD list.set_sel(2))
  then have "snd (row_cells L item (zip (tl headers) (tl lengths))) = None"
    by (rule row_cells_ok)
  moreover from Cons have "snd (table_rows L data headers lengths) = None" by simp
  ultimately show ?case using v by (simp add: getitem_def snd_then_write)
qed

lemma print_table_ok:
  assumes "\<forall>item\<in>set data. shown item"
  shows "snd (print_table L data table_headers) = None"
proof -
  have a: "\<forall>item\<in>set data. \<forall>h\<in>set table_headers. is_opt_str (map_of item h)"
    using assms by (simp add: shown_def list_all_iff)
  have "\<forall>x\<in>set (map length table_headers). 4 \<le> x"
    by (simp add: table_headers_def)
  then have g: "\<forall>j<length (map length table_headers). 4 \<le> map length table_headers ! j"
    using nth_mem by blast
  from scan_data_ok [OF a _ g, of L] obtain ls where
    ls: "scan_data L data table_headers (map length table_headers) = Inr ls" by auto
  have ne: "table_headers \<noteq> []" by (simp add: table_headers_def)
  have "\<forall>item\<in>set data. \<forall>h\<in>set table_headers. map_of item h \<noteq> None"
    using a by (auto simp: is_opt_str_iff)
  from table_rows_ok [OF ne this] ls ne show ?thesis
    by (simp add: print_table_def snd_then_write)
qed

subsection \<open>Null fields in the field formats and in the table\<close>

lemma print_results_fields:
  "format a \<noteq> [''json''] \<Longrightarrow> format a \<noteq> [''table''] \<Longrightarrow>
   print_results L a ttys = (print_lines (format_sep a) (format a) ttys, ttys)"
  by (simp add: print_results_def singleton_iff)

lemma row_cells_None:
  "map_of t h = Some PNone \<Longrightarrow>
   row_cells L t ((h, len) # rest) =
     then_write ('' | '' @ pad ''None'' len, None) (row_cells L t rest)"
  by (simp add: getitem_def py_str_def)

text \<open>
  Claim C10, as amended. In the field formats (\<^verbatim>\<open>--format\<close> is neither \<^verbatim>\<open>json\<close> nor \<^verbatim>\<open>table\<close> alone)
  the formatter returns normally exactly when every requested field of every record holds
  a string. A record with a requested field that is \<^verbatim>\<open>None\<close> makes it raise (an
  AttributeError, when the requested keys exist); the text written by then is the lines
  of the records before the first record with a field that is no string, so a line
  showing \<^verbatim>\<open>None\<close> for a null field is never printed. Table mode, unlike this, writes
  the cell of a null field as the text \<^verbatim>\<open>None\<close>, padded to the column, and does not
  raise on records whose columns are strings or \<^verbatim>\<open>None\<close>.
\<close>

theorem fields_mode_null_raises:
  assumes "format a \<noteq> [''json'']" and "format a \<noteq> [''table'']"
  shows "(snd (fst (print_results L a ttys)) = None) = list_all (all_str (format a)) ttys
       \<and> fst (fst (print_results L a ttys)) =
           concat (map (field_line (format_sep a) (format a))
                     (takeWhile (all_str (format a)) ttys))
       \<and> (\<forall>t\<in>set ttys. \<forall>f\<in>set (format a). map_of t f = Some PNone \<longrightarrow>
             (\<exists>e. snd (fst (print_results L a ttys)) = Some e))
       \<and> ((\<forall>t\<in>set ttys. \<forall>f\<in>set (format a). map_of t f \<noteq> None) \<and>
            \<not> list_all (all_str (format a)) ttys \<longrightarrow>
             snd (fst (print_results L a ttys)) = Some AttributeError)
       \<and> (\<forall>t h len rest. map_of t h = Some PNone \<longrightarrow>
             row_cells L t ((h, len) # rest) =
               then_write ('' | '' @ pad ''None'' len, None) (row_cells L t rest))
       \<and> ((\<forall>t\<in>set ttys. shown t) \<longrightarrow> snd (print_table L ttys table_headers) = None)"
proof (intro conjI ballI allI impI)
  note pr = print_results_fields [OF assms, of L ttys]
  show ok: "(snd (fst (print_results L a ttys)) = None) = list_all (all_str (format a)) ttys"
    unfolding pr by (simp add: print_lines_ok_iff)
  show "fst (fst (print_results L a ttys)) =
           concat (map (field_line (format_sep a) (format a))
                     (takeWhile (all_str (format a)) ttys))"
    unfolding pr by (simp add: print_lines_out)
  {
    fix t f assume t: "t \<in> set ttys" and f: "f \<in> set (format a)" and n: "map_of t f = Some PNone"
    from f n have "\<not> all_str (format a) t"
      by (auto simp: all_str_def list_all_iff intro!: bexI [of _ f])
    with t have "\<not> list_all (all_str (format a)) ttys" by (auto simp: list_all_iff)
    with ok show "\<exists>e. snd (fst (print_results L a ttys)) = Some e" by auto
  }
  {
    assume "(\<forall>t\<in>set ttys. \<forall>f\<in>set (format a). map_of t f \<noteq> None) \<and>
            \<not> list_all (all_str (format a)) ttys"
    then show "snd (fst (print_results L a ttys)) = Some AttributeError"
      unfolding pr using print_lines_error by simp
  }
  {
    fix t :: tty and h len rest assume "map_of t h = Some PNone"
    then show "row_cells L t ((h, len) # rest) =
               then_write ('' | '' @ pad ''None'' len, None) (row_cells L t rest)"
      by (rule row_cells_None)
  }
  {
    assume "\<forall>t\<in>set ttys. shown t"
    then show "snd (print_table L ttys table_headers) = None" by (rule print_table_ok)
  }
qed

lemma rfind_space_path: "rfind ''/dev/ttyACM0'' '' '' = - 1"
  by (simp add: rfind_def)

lemma rfind_space_AAA: "rfind ''AAA'' '' '' = - 1"
  by (simp add: rfind_def)

theorem fields_mode_null_raises_witness:
  "map_of tty_C ''serial'' = Some PNone \<and>
   fst (print_results lib0 (args0\<lparr>format := [''path'', ''serial'']\<rparr>) [tty_A, tty_C]) =
     (''/dev/ttyACM0 AAA'' @ [CHR 0x0A], Some AttributeError) \<and>
   row_cells lib0 tty_C [(''serial'', 6)] = ('' | None  '', None)"
proof -
  let ?a = "args0\<lparr>format := [''path'', ''serial'']\<rparr>"
  have f: "format ?a \<noteq> [''json'']" "format ?a \<noteq> [''table'']" by simp_all
  have n: "map_of tty_C ''serial'' = Some PNone" by (simp add: tty_C_def)
  have okA: "all_str (format ?a) tty_A" by (simp add: all_str_def tty_A_def)
  have badC: "\<not> all_str (format ?a) tty_C" by (simp add: all_str_def tty_C_def)
  have keys: "\<forall>t\<in>set [tty_A, tty_C]. \<forall>f\<in>set (format ?a). map_of t f \<noteq> None"
    by (simp add: tty_A_def tty_C_def)
  have line: "field_line (format_sep ?a) (format ?a) tty_A = ''/dev/ttyACM0 AAA'' @ [CHR 0x0A]"
    by (simp add: field_line_def quoted_def args0_def tty_A_def rfind_space_path rfind_space_AAA)
  note th = fields_mode_null_raises [OF f, of lib0 "[tty_A, tty_C]"]
  from th okA badC line have
    "fst (fst (print_results lib0 ?a [tty_A, tty_C])) = ''/dev/ttyACM0 AAA'' @ [CHR 0x0A]"
    by simp
  moreover from th keys badC have
    "snd (fst (print_results lib0 ?a [tty_A, tty_C])) = Some AttributeError"
    by simp
  moreover from th n have "row_cells lib0 tty_C [(''serial'', 6)] = ('' | None  '', None)"
    by (simp add: then_write_def pad_def eval_nat_numeral)
  ultimately show ?thesis using n by (simp add: prod_eq_iff)
qed

text \<open>
  The claim as stated has output only when every requested field of every record is a
  string. The lines are printed record by record: the line of a record before the one
  with the null field is on standard output when the exception is raised.
\<close>

theorem fields_mode_partial_output_counterexample:
  "map_of tty_C ''serial'' = Some PNone \<and>
   fst (fst (print_results lib0 (args0\<lparr>format := [''path'', ''serial'']\<rparr>) [tty_A, tty_C])) =
     ''/dev/ttyACM0 AAA'' @ [CHR 0x0A] \<and>
   fst (fst (print_results lib0 (args0\<lparr>format := [''path'', ''serial'']\<rparr>) [tty_A, tty_C])) \<noteq> []"
  by (simp add: print_results_def args0_def getitem_def tty_A_def tty_C_def
      rfind_space_path rfind_space_AAA then_write_def)

subsection \<open>The serial filter\<close>

lemma re_parse_plain:
  "c \<noteq> CHR 0x5C \<Longrightarrow>
   re_parse (c # cs) =
     (case plain_item c of None \<Rightarrow> None | Some i \<Rightarrow> map_option (Cons i) (re_parse cs))"
  by (cases cs) (auto split: option.splits)

lemma re_parse_escaped:
  "re_parse (CHR 0x5C # d # ds) =
     (if is_ascii_alnum d then None else map_option (Cons (Lit d)) (re_parse ds))"
  by simp

lemma special_not_alnum: "re_special c \<Longrightarrow> \<not> is_ascii_alnum c"
  by (auto simp: re_special_def is_ascii_alnum_def)

lemma not_special_plain: "\<not> re_special c \<Longrightarrow> c \<noteq> CHR 0x5C \<and> plain_item c = Some (Lit c)"
  by (auto simp: re_special_def plain_item_def)

lemma re_parse_escape:
  "re_parse (re_escape s @ rest) = map_option ((@) (map Lit s)) (re_parse rest)"
proof (induction s)
  case Nil
  show ?case by (simp add: re_escape_def option.map_ident)
next
  case (Cons c s)
  have unfold: "re_escape (c # s) = (if re_special c then [CHR 0x5C, c] else [c]) @ re_escape s"
    by (simp add: re_escape_def)
  show ?case
  proof (cases "re_special c")
    case True
    then have "re_parse (re_escape (c # s) @ rest) =
                 map_option (Cons (Lit c)) (re_parse (re_escape s @ rest))"
      unfolding unfold using special_not_alnum [OF True] by (simp del: re_parse.simps add: re_parse_escaped)
    then show ?thesis unfolding Cons.IH by (simp add: option.map_comp comp_def)
  next
    case False
    from not_special_plain [OF False] have "re_parse (re_escape (c # s) @ rest) =
                 map_option (Cons (Lit c)) (re_parse (re_escape s @ rest))"
      unfolding unfold using False by (simp del: re_parse.simps add: re_parse_plain)
    then show ?thesis unfolding Cons.IH by (simp add: option.map_comp comp_def)
  qed
qed

lemma re_parse_serial:
  "re_parse (''^'' @ re_escape s @ ''$'') = Some (Bol # map Lit s @ [Eol])"
proof -
  have "re_parse ''$'' = Some [Eol]" by (simp add: plain_item_def)
  then have "re_parse (re_escape s @ ''$'') = Some (map Lit s @ [Eol])"
    unfolding re_parse_escape by simp
  moreover have "re_parse (''^'' @ re_escape s @ ''$'') =
      map_option (Cons Bol) (re_parse (re_escape s @ ''$''))"
    using re_parse_plain [of "CHR ''^''" "re_escape s @ ''$''"] by (simp add: plain_item_def)
  ultimately show ?thesis by simp
qed

lemma match_literal_eol:
  "re_match_at (map Lit s @ [Eol]) st t = (t = s \<or> t = s @ [CHR 0x0A])"
proof (induction s arbitrary: st t)
  case Nil
  show ?case by simp
next
  case (Cons c cs)
  show ?case by (cases t) (auto simp: Cons.IH)
qed

lemma serial_pattern:
  "\<exists>p. re_compile L (''^'' @ re_escape s @ ''$'') = Inr p \<and>
       (\<forall>t. p t = (t = s \<or> t = s @ [CHR 0x0A]))"
proof -
  have "re_compile L (''^'' @ re_escape s @ ''$'') =
          Inr (re_match_at (Bol # map Lit s @ [Eol]) True)"
    unfolding re_compile_def re_parse_serial by simp
  moreover have "\<forall>t. re_match_at (Bol # map Lit s @ [Eol]) True t = (t = s \<or> t = s @ [CHR 0x0A])"
    by (simp add: match_literal_eol)
  ultimately show ?thesis by blast
qed

lemma serial_filter_only:
  assumes "serial a = Some s" "driver a = None" "model a = None" "model_db a = None"
    "vendor a = None" "vendor_db a = None" "iface_num a = None"
  shows "\<exists>p. generate_filters L a = Inr [(''serial'', p)] \<and>
             (\<forall>t. p t = (t = s \<or> t = s @ [CHR 0x0A]))"
proof -
  from serial_pattern [of L s] obtain p where
    p: "re_compile L (''^'' @ re_escape s @ ''$'') = Inr p"
       "\<forall>t. p t = (t = s \<or> t = s @ [CHR 0x0A])" by blast
  from p(1) assms have "generate_filters L a = Inr [(''serial'', p)]"
    by (simp add: generate_filters_def append_filter_def and_then_def)
  with p(2) show ?thesis by blast
qed

text \<open>
  Claim C6, evaluated on the code. The pattern built for \<^verbatim>\<open>--serial ABC\<close> is
  \<^verbatim>\<open>^ABC$\<close>, and \<^verbatim>\<open>$\<close> also matches just before a newline that ends the string: the
  filter accepts a record whose serial is \<^verbatim>\<open>ABC\<close> followed by a newline, which is not
  the literal string \<^verbatim>\<open>ABC\<close>. By \<open>serial_filter_only\<close> this is the only way the
  predicate differs from literal equality.
\<close>

theorem serial_filter_trailing_newline:
  "and_then (generate_filters lib0 (args0\<lparr>serial := Some ''ABC''\<rparr>))
     (\<lambda>filters. filters_match filters
        (AList.update ''serial'' (PStr (''ABC'' @ [CHR 0x0A])) tty_A)) = Inr True
   \<and> ''ABC'' @ [CHR 0x0A] \<noteq> ''ABC''"
proof -
  have "serial (args0\<lparr>serial := Some ''ABC''\<rparr>) = Some ''ABC''" by simp
  from serial_filter_only [OF this, of lib0] obtain p where
    p: "generate_filters lib0 (args0\<lparr>serial := Some ''ABC''\<rparr>) = Inr [(''serial'', p)]"
       "\<forall>t. p t = (t = ''ABC'' \<or> t = ''ABC'' @ [CHR 0x0A])"
    by (auto simp: args0_def)
  then show ?thesis by (simp add: and_then_def getitem_def update_conv')
qed

text \<open>
  The metacharacters of the value are escaped: the filter for \<^verbatim>\<open>A.B*\<close> accepts the serial
  \<^verbatim>\<open>A.B*\<close> and rejects \<^verbatim>\<open>AxBBB\<close>, which the unescaped pattern \<^verbatim>\<open>A.B\<close> matches.
\<close>

lemma serial_filter_literal:
  "and_then (generate_filters lib0 (args0\<lparr>serial := Some ''A.B*''\<rparr>))
     (\<lambda>filters. filters_match filters (AList.update ''serial'' (PStr ''A.B*'') tty_A)) = Inr True
   \<and> and_then (generate_filters lib0 (args0\<lparr>serial := Some ''A.B*''\<rparr>))
     (\<lambda>filters. filters_match filters (AList.update ''serial'' (PStr ''AxBBB'') tty_A)) = Inr False
   \<and> and_then (re_compile lib0 ''A.B'') (\<lambda>p. Inr (p ''AxBBB'')) = Inr True"
proof -
  have "serial (args0\<lparr>serial := Some ''A.B*''\<rparr>) = Some ''A.B*''" by simp
  from serial_filter_only [OF this, of lib0] obtain p where
    p: "generate_filters lib0 (args0\<lparr>serial := Some ''A.B*''\<rparr>) = Inr [(''serial'', p)]"
       "\<forall>t. p t = (t = ''A.B*'' \<or> t = ''A.B*'' @ [CHR 0x0A])"
    by (auto simp: args0_def)
  have "re_compile lib0 ''A.B'' = Inr (re_match_at [Lit CHR ''A'', AnyChar, Lit CHR ''B''] True)"
    by (simp add: re_compile_def plain_item_def)
  with p show ?thesis by (simp add: and_then_def getitem_def update_conv')
qed

subsection \<open>The lines of the field formats\<close>

lemma rfind_ge0_filter:
  "(rfind s sub \<ge> 0) =
     (length sub \<le> length s \<and>
      filter (\<lambda>i. take (length sub) (drop i s) = sub)
        (rev [0..<Suc (length s - length sub)]) \<noteq> [])"
proof -
  define F where "F = filter (\<lambda>i. take (length sub) (drop i s) = sub)
        (rev [0..<Suc (length s - length sub)])"
  have "rfind s sub =
          (if length sub \<le> length s then (case F of [] \<Rightarrow> - 1 | i # _ \<Rightarrow> int i) else - 1)"
    unfolding rfind_def F_def ..
  then have "(rfind s sub \<ge> 0) = (length sub \<le> length s \<and> F \<noteq> [])"
    by (cases F) auto
  then show ?thesis unfolding F_def .
qed

lemma rfind_ge0_iff: "(rfind s sub \<ge> 0) = (\<exists>p q. s = p @ sub @ q)"
proof
  assume "rfind s sub \<ge> 0"
  then have "filter (\<lambda>i. take (length sub) (drop i s) = sub)
                 (rev [0..<Suc (length s - length sub)]) \<noteq> []"
    unfolding rfind_ge0_filter by blast
  then obtain i where "take (length sub) (drop i s) = sub"
    unfolding filter_empty_conv by blast
  then have "s = take i s @ sub @ drop (length sub) (drop i s)"
    by (metis append_take_drop_id)
  then show "\<exists>p q. s = p @ sub @ q" by blast
next
  assume "\<exists>p q. s = p @ sub @ q"
  then obtain p q where s: "s = p @ sub @ q" by blast
  then have le: "length sub \<le> length s" by simp
  have i: "length p \<in> set (rev [0..<Suc (length s - length sub)])" using s by simp
  have "take (length sub) (drop (length p) s) = sub" using s by simp
  with i have "filter (\<lambda>i. take (length sub) (drop i s) = sub)
                 (rev [0..<Suc (length s - length sub)]) \<noteq> []"
    unfolding filter_empty_conv by blast
  with le show "rfind s sub \<ge> 0" unfolding rfind_ge0_filter by blast
qed

lemma takeWhile_all: "list_all P xs \<Longrightarrow> takeWhile P xs = xs"
  by (induction xs) auto

text \<open>
  The field formats on records whose requested fields all hold strings: one line per
  record, the requested values joined by the separator, a value that contains the
  separator written as \<^verbatim>\<open>json.dumps\<close> writes it and every other value as it is.
\<close>

theorem fields_mode_lines:
  assumes "format a \<noteq> [''json'']" and "format a \<noteq> [''table'']"
    and "list_all (all_str (format a)) ttys"
  shows "print_results L a ttys =
           ((concat (map (\<lambda>tty. join (format_sep a)
                                   (map (\<lambda>fmt. quoted (format_sep a) (str_of (map_of tty fmt)))
                                      (format a)) @ [CHR 0x0A]) ttys),
             None), ttys)
       \<and> (\<forall>item. quoted (format_sep a) item =
              (if \<exists>p q. item = p @ format_sep a @ q then json_dumps_str item else item))"
proof
  have "fst (print_lines (format_sep a) (format a) ttys) =
          concat (map (field_line (format_sep a) (format a)) ttys)"
    unfolding print_lines_out takeWhile_all [OF assms(3)] ..
  moreover have "snd (print_lines (format_sep a) (format a) ttys) = None"
    using assms(3) by (simp add: print_lines_ok_iff)
  ultimately have "print_lines (format_sep a) (format a) ttys =
      (concat (map (field_line (format_sep a) (format a)) ttys), None)"
    by (simp add: prod_eq_iff)
  then show "print_results L a ttys =
           ((concat (map (\<lambda>tty. join (format_sep a)
                                   (map (\<lambda>fmt. quoted (format_sep a) (str_of (map_of tty fmt)))
                                      (format a)) @ [CHR 0x0A]) ttys),
             None), ttys)"
    unfolding print_results_fields [OF assms(1,2)] field_line_def by simp
  show "\<forall>item. quoted (format_sep a) item =
              (if \<exists>p q. item = p @ format_sep a @ q then json_dumps_str item else item)"
    by (simp add: quoted_def rfind_ge0_iff)
qed

lemma rfind_examples:
  "rfind ''/dev/ttyACM0'' '','' = - 1" "rfind ''XYZ'' '','' = - 1"
  "rfind ''ACME Corp'' '' '' = 4"
  by (simp_all add: rfind_def)

theorem fields_mode_lines_witness:
  "fst (print_results lib0 (args0\<lparr>format := [''path'', ''serial''], format_sep := '',''\<rparr>) [tty_X])
     = (''/dev/ttyACM0,XYZ'' @ [CHR 0x0A], None) \<and>
   fst (print_results lib0 (args0\<lparr>format := [''path'', ''vendor'']\<rparr>) [tty_A])
     = (''/dev/ttyACM0 '' @ [CHR 0x22] @ ''ACME Corp'' @ [CHR 0x22, CHR 0x0A], None)"
proof -
  let ?a = "args0\<lparr>format := [''path'', ''serial''], format_sep := '',''\<rparr>"
  let ?b = "args0\<lparr>format := [''path'', ''vendor'']\<rparr>"
  have fa: "format ?a \<noteq> [''json'']" "format ?a \<noteq> [''table'']" by simp_all
  have fb: "format ?b \<noteq> [''json'']" "format ?b \<noteq> [''table'']" by simp_all
  have sa: "list_all (all_str (format ?a)) [tty_X]"
    by (simp add: all_str_def tty_X_def tty_A_def)
  have sb: "list_all (all_str (format ?b)) [tty_A]"
    by (simp add: all_str_def tty_A_def)
  from fields_mode_lines [OF fa sa, of lib0]
  have 1: "fst (print_results lib0 ?a [tty_X]) = (''/dev/ttyACM0,XYZ'' @ [CHR 0x0A], None)"
    by (simp add: quoted_def tty_X_def tty_A_def args0_def rfind_examples)
  from fields_mode_lines [OF fb sb, of lib0]
  have 2: "fst (print_results lib0 ?b [tty_A])
     = (''/dev/ttyACM0 '' @ [CHR 0x22] @ ''ACME Corp'' @ [CHR 0x22, CHR 0x0A], None)"
    by (simp add: quoted_def tty_A_def args0_def rfind_def json_dumps_str_def
        json_escape_char_def)
  from 1 2 show ?thesis by simp
qed

text \<open>
  Claim C3, evaluated on the code. \<^verbatim>\<open>ctime\<close> is one of the combinable formats and passes
  the validation, but the value of the field is a float, which has no \<^verbatim>\<open>rfind\<close>:
  \<^verbatim>\<open>--format path ctime\<close> raises AttributeError before anything is printed.
\<close>

theorem fields_mode_ctime_raises:
  "map_of tty_A ''ctime'' = Some (PFloat 100) \<and>
   ''ctime'' \<in> set formats_combinable \<and>
   check_format [''path'', ''ctime''] = None \<and>
   fst (print_results lib0 (args0\<lparr>format := [''path'', ''ctime'']\<rparr>) [tty_A])
     = ([], Some AttributeError)"
  by (simp add: print_results_def args0_def tty_A_def getitem_def rfind_def
      formats_combinable_def check_format_def)

subsection \<open>The records of a run\<close>

lemma is_opt_str_dev_get: "is_opt_str (Some (dev_get d k))"
  by (simp add: dev_get_def split: option.splits)

lemma tty2dict_wf: "tty2dict L d = Inr t \<Longrightarrow> wf_tty t"
  unfolding tty2dict_Inr by (auto simp: wf_tty_def is_opt_str_dev_get)

lemma collect_wf: "collect L excl F devs = Inr ttys \<Longrightarrow> \<forall>t\<in>set ttys. wf_tty t"
proof (induction devs arbitrary: ttys)
  case Nil
  then show ?case by simp
next
  case (Cons d ds)
  from Cons.prems obtain t ok rest where
    t: "tty2dict L d = Inr t" and rest: "collect L excl F ds = Inr rest"
    and ttys: "ttys = (if ok then t # rest else rest)"
    by (auto simp: and_then_def split: sum.splits)
  from Cons.IH [OF rest] tty2dict_wf [OF t] ttys show ?case by auto
qed

lemma scan_recent_mem: "scan_recent r ttys = Inr m \<Longrightarrow> m = r \<or> m \<in> set ttys"
proof (induction ttys arbitrary: r)
  case Nil
  then show ?case by simp
next
  case (Cons t ts)
  from Cons.prems obtain newer where "scan_recent (if newer then t else r) ts = Inr m"
    by (auto simp: and_then_def split: sum.splits)
  from Cons.IH [OF this] show ?case by (auto split: if_splits)
qed

lemma select_subset: "select_most_recent flag ttys = Inr r \<Longrightarrow> set r \<subseteq> set ttys"
proof (cases "flag \<and> ttys \<noteq> []")
  case True
  assume "select_most_recent flag ttys = Inr r"
  with True obtain m where m: "scan_recent (ttys ! 0) ttys = Inr m" "r = [m]"
    by (auto simp: select_most_recent_def and_then_def split: sum.splits)
  from scan_recent_mem [OF m(1)] True have "m \<in> set ttys" by (cases ttys) auto
  with m(2) show ?thesis by simp
next
  case False
  assume "select_most_recent flag ttys = Inr r"
  with False show ?thesis by (auto simp: select_most_recent_def split: if_splits)
qed

lemma final_ttys_wf: "final_ttys L devs a = Inr ttys \<Longrightarrow> \<forall>t\<in>set ttys. wf_tty t"
proof -
  assume "final_ttys L devs a = Inr ttys"
  then obtain F found where "collect L (exclude_serial a) F devs = Inr found"
    "select_most_recent (most_recent a) found = Inr ttys"
    by (auto simp: final_ttys_def and_then_def split: sum.splits)
  with collect_wf select_subset show ?thesis by blast
qed

lemma wf_tty_shown:
  assumes "wf_tty t"
  shows "shown (AList.update ''ctime'' (PStr s) t)"
proof -
  from assms have p: "is_opt_str (map_of t ''path'')"
    by (auto simp: wf_tty_def is_str_iff is_opt_str_iff)
  with assms show ?thesis
    by (simp add: shown_def table_headers_def wf_tty_def update_conv')
qed

lemma ctime_to_text_shown:
  "\<forall>t\<in>set ttys. wf_tty t \<Longrightarrow>
   \<exists>ttys'. ctime_to_text L ttys = (ttys', None) \<and> (\<forall>t\<in>set ttys'. shown t)"
proof (induction ttys)
  case Nil
  show ?case by simp
next
  case (Cons t ts)
  then obtain ts' where ts': "ctime_to_text L ts = (ts', None)" "\<forall>t\<in>set ts'. shown t" by auto
  from Cons.prems have w: "wf_tty t" by simp
  then obtain x where x: "map_of t ''ctime'' = Some (PFloat x)"
    by (auto simp: wf_tty_def is_float_iff)
  from x ts'(1) have "ctime_to_text L (t # ts) =
      (AList.update ''ctime'' (PStr (strftime_HMS L x)) t # ts', None)"
    by (simp add: getitem_def localtime_HMS_def)
  with ts'(2) wf_tty_shown [OF w] show ?case by simp
qed

lemma print_results_table_ok:
  assumes "format a = [''table'']" and "\<forall>t\<in>set ttys. wf_tty t"
  shows "snd (fst (print_results L a ttys)) = None \<and> fst (fst (print_results L a ttys)) \<noteq> []"
proof -
  from ctime_to_text_shown [OF assms(2), of L] obtain ttys' where
    t: "ctime_to_text L ttys = (ttys', None)" "\<forall>t\<in>set ttys'. shown t" by blast
  have pr: "fst (print_results L a ttys) = print_table L ttys' table_headers"
    using assms(1) t(1) by (simp add: print_results_def)
  have a: "\<forall>item\<in>set ttys'. \<forall>h\<in>set table_headers. is_opt_str (map_of item h)"
    using t(2) by (simp add: shown_def list_all_iff)
  have "\<forall>x\<in>set (map length table_headers). 4 \<le> x"
    by (simp add: table_headers_def)
  then have g: "\<forall>j<length (map length table_headers). 4 \<le> map length table_headers ! j"
    using nth_mem by blast
  from scan_data_ok [OF a _ g, of L] obtain ls where
    ls: "scan_data L ttys' table_headers (map length table_headers) = Inr ls" by auto
  have ne: "table_headers \<noteq> []" by (simp add: table_headers_def)
  have "fst (print_table L ttys' table_headers) \<noteq> []"
    using ls ne by (simp add: print_table_def then_write_def)
  with print_table_ok [OF t(2), of L] pr show ?thesis by simp
qed

lemma print_results_json_ok:
  "format a = [''json''] \<Longrightarrow>
   snd (fst (print_results L a ttys)) = None \<and> fst (fst (print_results L a ttys)) \<noteq> []"
  by (simp add: print_results_def)

lemma print_ttys_final:
  assumes "parse_args env ns = Inr a" and "final_ttys L devs a = Inr ttys"
  shows "print_ttys L env devs ns =
           (if ttys = [] then \<lparr>stdout = [], stderr = Quiet, exit_code = 1, queried = True\<rparr>
            else (case fst (print_results L a ttys) of
                    (out, Some e) \<Rightarrow> uncaught out e True
                  | (out, None) \<Rightarrow>
                      \<lparr>stdout = out, stderr = Quiet, exit_code = 0, queried = True\<rparr>))"
proof -
  from assms(2) obtain F found where
    "generate_filters L a = Inr F" "collect L (exclude_serial a) F devs = Inr found"
    "select_most_recent (most_recent a) found = Inr ttys"
    by (auto simp: final_ttys_def and_then_def split: sum.splits)
  with assms(1) show ?thesis by (simp add: print_ttys_def exited_def)
qed

lemma parse_args_format: "parse_args env ns = Inr a \<Longrightarrow> format a = format ns \<and> check_format (format ns) = None"
  by (auto simp: parse_args_def split: option.splits if_splits)

lemma check_combined_None_iff:
  "(check_combined fmts = None) = (\<forall>f\<in>set fmts. f \<in> set formats_combinable)"
  by (induction fmts) (auto simp: not_combinable_def not_supported_def)

lemma valid_fields_combinable:
  assumes "check_format fmts = None" "fmts \<noteq> [''json'']" "fmts \<noteq> [''table'']"
  shows "\<forall>f\<in>set fmts. f \<in> set formats_combinable"
proof (cases "length fmts = 1")
  case True
  then obtain f where f: "fmts = [f]" by (cases fmts) auto
  with assms show ?thesis
    by (auto simp: check_format_def supported_formats_def formats_uncombinable_def split: if_splits)
next
  case False
  with assms(1) show ?thesis by (simp add: check_format_def check_combined_None_iff)
qed

lemma present_fields:
  "is_str v \<Longrightarrow> v \<noteq> None" "is_float v \<Longrightarrow> v \<noteq> None" "is_opt_str v \<Longrightarrow> v \<noteq> None"
  by (cases v; simp)+

lemma wf_tty_has_field:
  assumes "wf_tty t" and "f \<in> set formats_combinable"
  shows "map_of t f \<noteq> None"
proof -
  from assms(1) have a: "is_str (map_of t ''path'')" "is_float (map_of t ''ctime'')"
    "is_opt_str (map_of t ''serial'')" "is_opt_str (map_of t ''driver'')"
    "is_opt_str (map_of t ''model'')" "is_opt_str (map_of t ''model_db'')"
    "is_opt_str (map_of t ''vendor'')" "is_opt_str (map_of t ''vendor_db'')"
    "is_opt_str (map_of t ''iface_num'')"
    by (simp_all add: wf_tty_def)
  from assms(2) have "f = ''path'' \<or> f = ''serial'' \<or> f = ''vendor'' \<or> f = ''vendor_db'' \<or>
      f = ''model'' \<or> f = ''model_db'' \<or> f = ''driver'' \<or> f = ''ctime'' \<or> f = ''iface_num''"
    unfolding formats_combinable_def by simp
  with a show ?thesis using present_fields by blast
qed

subsection \<open>The exit status of a run\<close>

text \<open>
  The exit status of a run whose format is valid and whose records could all be built.
  With no record left: status 1, nothing on either stream. With a record left, in the
  table and JSON formats, and in the field formats when every requested field of every
  record holds a string: the records are printed and the status is 0. In the field
  formats with a requested field that holds no string: an uncaught AttributeError, status
  1.
\<close>

theorem run_outcome:
  assumes "parse_args env ns = Inr a" and "final_ttys L devs a = Inr ttys"
  shows "(ttys = [] \<longrightarrow>
            print_ttys L env devs ns =
              \<lparr>stdout = [], stderr = Quiet, exit_code = 1, queried = True\<rparr>)
       \<and> (ttys \<noteq> [] \<and>
            (format a = [''json''] \<or> format a = [''table''] \<or>
             list_all (all_str (format a)) ttys) \<longrightarrow>
            print_ttys L env devs ns =
              \<lparr>stdout = fst (fst (print_results L a ttys)), stderr = Quiet, exit_code = 0,
               queried = True\<rparr> \<and>
            fst (fst (print_results L a ttys)) \<noteq> [])
       \<and> (ttys \<noteq> [] \<and> format a \<noteq> [''json''] \<and> format a \<noteq> [''table''] \<and>
            \<not> list_all (all_str (format a)) ttys \<longrightarrow>
            stderr (print_ttys L env devs ns) = Traceback AttributeError \<and>
            exit_code (print_ttys L env devs ns) = 1)"
proof (intro conjI impI)
  note pt = print_ttys_final [OF assms]
  note wf = final_ttys_wf [OF assms(2)]
  {
    assume "ttys = []"
    with pt show "print_ttys L env devs ns =
              \<lparr>stdout = [], stderr = Quiet, exit_code = 1, queried = True\<rparr>" by simp
  }
  {
    assume h: "ttys \<noteq> [] \<and>
            (format a = [''json''] \<or> format a = [''table''] \<or>
             list_all (all_str (format a)) ttys)"
    have ok: "snd (fst (print_results L a ttys)) = None \<and> fst (fst (print_results L a ttys)) \<noteq> []"
    proof (cases "format a = [''json'']")
      case True
      then show ?thesis by (rule print_results_json_ok)
    next
      case nj: False
      show ?thesis
      proof (cases "format a = [''table'']")
        case True
        then show ?thesis using wf by (rule print_results_table_ok)
      next
        case False
        with nj h have s: "list_all (all_str (format a)) ttys" by simp
        from h obtain t ts where tt: "ttys = t # ts" by (cases ttys) auto
        with s have "all_str (format a) t" by simp
        then have "fst (print_lines (format_sep a) (format a) ttys) \<noteq> []"
          unfolding tt by (simp add: print_lines_Cons_ok field_line_def del: print_lines.simps)
        with s show ?thesis
          unfolding print_results_fields [OF nj False] by (simp add: print_lines_ok_iff)
      qed
    qed
    then show "print_ttys L env devs ns =
              \<lparr>stdout = fst (fst (print_results L a ttys)), stderr = Quiet, exit_code = 0,
               queried = True\<rparr>"
      using pt h by (cases "fst (print_results L a ttys)") auto
    from ok show "fst (fst (print_results L a ttys)) \<noteq> []" by simp
  }
  {
    assume h: "ttys \<noteq> [] \<and> format a \<noteq> [''json''] \<and> format a \<noteq> [''table''] \<and>
            \<not> list_all (all_str (format a)) ttys"
    from parse_args_format [OF assms(1)] have "check_format (format a) = None" by simp
    from valid_fields_combinable [OF this] h
    have "\<forall>f\<in>set (format a). f \<in> set formats_combinable" by simp
    with wf have "\<forall>t\<in>set ttys. \<forall>f\<in>set (format a). map_of t f \<noteq> None"
      using wf_tty_has_field by blast
    from print_lines_error [OF this, of "format_sep a"] h
    have e: "snd (fst (print_results L a ttys)) = Some AttributeError"
      by (simp add: print_results_fields)
    then have "print_ttys L env devs ns =
        uncaught (fst (fst (print_results L a ttys))) AttributeError True"
      using pt h by (cases "fst (print_results L a ttys)") auto
    then show "stderr (print_ttys L env devs ns) = Traceback AttributeError"
      and "exit_code (print_ttys L env devs ns) = 1"
      by (simp_all add: uncaught_def)
  }
qed

lemma tty2dict_dev_A: "tty2dict lib0 dev_A = Inr tty_A"
  by (simp add: tty2dict_def lib0_def dev_A_def dev_of_def tty_A_def dev_get_def
      stat_ctime_def unescape_def py_int_def str_int_def str_nat.simps digit_char_def)

lemma no_filters:
  "generate_filters L (args0\<lparr>format := fmts, exclude_serial := excl\<rparr>) = Inr []"
  by (simp add: generate_filters_def append_filter_def and_then_def args0_def)

lemma final_ttys_dev_A:
  "final_ttys lib0 [dev_A] (args0\<lparr>format := fmts, exclude_serial := Some []\<rparr>) = Inr [tty_A]"
proof -
  have "getitem tty_A ''serial'' = Inr (PStr ''AAA'')" by (simp add: getitem_def tty_A_def)
  then have "collect lib0 (Some []) [] [dev_A] = Inr [tty_A]"
    by (simp add: tty2dict_dev_A and_then_def not_in_def)
  moreover have "most_recent (args0\<lparr>format := fmts, exclude_serial := Some []\<rparr>) = False"
    by (simp add: args0_def)
  ultimately show ?thesis
    unfolding final_ttys_def no_filters by (simp add: and_then_def select_most_recent_def)
qed

lemma parse_args_ctime:
  "parse_args Map.empty (args0\<lparr>format := [''ctime'']\<rparr>) =
     Inr (args0\<lparr>format := [''ctime''], exclude_serial := Some []\<rparr>)"
  by (simp add: parse_args_def check_format_def supported_formats_def formats_combinable_def
      args0_def)

text \<open>
  Claim C5, evaluated on the code. \<^verbatim>\<open>--format ctime\<close> is a valid format configuration
  and one record is left after exclusion, filtering and selection, yet the run prints
  nothing and ends with a traceback and status 1: the field formatter raises on the
  float.
\<close>

theorem ctime_format_run_fails:
  "check_format [''ctime''] = None \<and>
   parse_args Map.empty (args0\<lparr>format := [''ctime'']\<rparr>) =
     Inr (args0\<lparr>format := [''ctime''], exclude_serial := Some []\<rparr>) \<and>
   final_ttys lib0 [dev_A] (args0\<lparr>format := [''ctime''], exclude_serial := Some []\<rparr>) =
     Inr [tty_A] \<and>
   print_ttys lib0 Map.empty [dev_A] (args0\<lparr>format := [''ctime'']\<rparr>) =
     \<lparr>stdout = [], stderr = Traceback AttributeError, exit_code = 1, queried = True\<rparr>"
proof -
  have c: "check_format [''ctime''] = None"
    by (simp add: check_format_def supported_formats_def formats_combinable_def)
  have p: "fst (print_results lib0 (args0\<lparr>format := [''ctime''], exclude_serial := Some []\<rparr>)
            [tty_A]) = ([], Some AttributeError)"
    by (simp add: print_results_def getitem_def tty_A_def)
  from print_ttys_final [OF parse_args_ctime final_ttys_dev_A] p
  have "print_ttys lib0 Map.empty [dev_A] (args0\<lparr>format := [''ctime'']\<rparr>) =
     \<lparr>stdout = [], stderr = Traceback AttributeError, exit_code = 1, queried = True\<rparr>"
    by (simp add: uncaught_def)
  with c parse_args_ctime final_ttys_dev_A show ?thesis by simp
qed

theorem run_outcome_witness:
  "parse_args Map.empty (args0\<lparr>format := [''serial'']\<rparr>) =
     Inr (args0\<lparr>format := [''serial''], exclude_serial := Some []\<rparr>) \<and>
   final_ttys lib0 [dev_A] (args0\<lparr>format := [''serial''], exclude_serial := Some []\<rparr>) =
     Inr [tty_A] \<and>
   print_ttys lib0 Map.empty [dev_A] (args0\<lparr>format := [''serial'']\<rparr>) =
     \<lparr>stdout = ''AAA'' @ [CHR 0x0A], stderr = Quiet, exit_code = 0, queried = True\<rparr>"
proof -
  let ?a = "args0\<lparr>format := [''serial''], exclude_serial := Some []\<rparr>"
  have pa: "parse_args Map.empty (args0\<lparr>format := [''serial'']\<rparr>) = Inr ?a"
    by (simp add: parse_args_def check_format_def supported_formats_def formats_combinable_def
      args0_def)
  have s: "list_all (all_str (format ?a)) [tty_A]" by (simp add: all_str_def tty_A_def)
  have out: "fst (fst (print_results lib0 ?a [tty_A])) = ''AAA'' @ [CHR 0x0A]"
    by (simp add: print_results_def getitem_def tty_A_def args0_def rfind_def then_write_def)
  from run_outcome [OF pa final_ttys_dev_A] s out
  have "print_ttys lib0 Map.empty [dev_A] (args0\<lparr>format := [''serial'']\<rparr>) =
     \<lparr>stdout = ''AAA'' @ [CHR 0x0A], stderr = Quiet, exit_code = 0, queried = True\<rparr>"
    by simp
  with pa final_ttys_dev_A show ?thesis by simp
qed

subsection \<open>The serial predicate in full\<close>

text \<open>
  The serial predicate, when \<^verbatim>\<open>--serial\<close> is the only filter: it accepts exactly the
  filter value and the filter value followed by one newline, whatever metacharacters the
  value contains.
\<close>

theorem serial_filter_exact:
  assumes "serial a = Some s" "driver a = None" "model a = None" "model_db a = None"
    "vendor a = None" "vendor_db a = None" "iface_num a = None"
  shows "\<exists>p. generate_filters L a = Inr [(''serial'', p)] \<and>
             (\<forall>t. p t = (t = s \<or> t = s @ [CHR 0x0A]))"
  using assms by (rule serial_filter_only)

theorem serial_filter_exact_witness:
  "serial (args0\<lparr>serial := Some ''A.B*''\<rparr>) = Some ''A.B*'' \<and>
   (\<exists>p. generate_filters lib0 (args0\<lparr>serial := Some ''A.B*''\<rparr>) = Inr [(''serial'', p)] \<and>
        p ''A.B*'' \<and> \<not> p ''AxBBB'' \<and> \<not> p ''A.B'')"
proof -
  have h: "serial (args0\<lparr>serial := Some ''A.B*''\<rparr>) = Some ''A.B*''" by simp
  from serial_filter_exact [OF h, of lib0] obtain p where
    "generate_filters lib0 (args0\<lparr>serial := Some ''A.B*''\<rparr>) = Inr [(''serial'', p)]"
    "\<forall>t. p t = (t = ''A.B*'' \<or> t = ''A.B*'' @ [CHR 0x0A])"
    by (auto simp: args0_def)
  then have "generate_filters lib0 (args0\<lparr>serial := Some ''A.B*''\<rparr>) = Inr [(''serial'', p)] \<and>
        p ''A.B*'' \<and> \<not> p ''AxBBB'' \<and> \<not> p ''A.B''" by simp
  with h show ?thesis by blast
qed

subsection \<open>Two runs\<close>

lemma tty2dict_dev_B: "tty2dict lib0 dev_B = Inr tty_B"
  by (simp add: tty2dict_def lib0_def dev_B_def dev_of_def tty_B_def dev_get_def
      stat_ctime_def unescape_def py_int_def str_int_def str_nat.simps digit_char_def)

lemma hms_utc_200: "hms_utc 200 = ''00:03:20''"
  by (simp add: hms_utc_def two_digits_def digit_char_def)

lemma collect_example:
  "collect lib0 (Some [''AAA'']) [] [dev_A, dev_B] = Inr [tty_B]"
  by (simp add: tty2dict_dev_A tty2dict_dev_B and_then_def not_in_def getitem_def
      tty_A_def tty_B_def)

text \<open>
  The table for two records, one of them without a serial number: the widths are the
  longest cell or the header, a null field shows as \<^verbatim>\<open>None\<close>.
\<close>

lemma table_example:
  "fst (print_results lib0 args0 [tty_B, tty_C]) =
     (''path         | driver   | vendor | model | model_db | serial | ctime    | iface_num'' @ [CHR 0x0A] @
      ''-------------|----------|--------|-------|----------|--------|----------|----------'' @ [CHR 0x0A] @
      ''/dev/ttyACM1 | cdc_acm  | ACME   | Board | None     | BBB    | 00:03:20 | 1        '' @ [CHR 0x0A] @
      ''/dev/ttyUSB0 | ftdi_sio | FTDI   | UART  | None     | None   | 00:01:40 | 0        '' @ [CHR 0x0A],
      None)"
  by (simp add: print_results_def args0_def getitem_def localtime_HMS_def lib0_def
      hms_utc_100 hms_utc_200 tty_B_def tty_C_def print_table_def table_headers_def
      enumerate_eq_zip py_str_def py_len_def then_write_def pad_def eval_nat_numeral)

text \<open>
  The scenario \<^verbatim>\<open>--exclude-serial AAA\<close> with the devices \<^verbatim>\<open>AAA\<close> and \<^verbatim>\<open>BBB\<close>: the table has
  the one row of \<^verbatim>\<open>BBB\<close> and the exit status is 0.
\<close>

lemma exclude_serial_run:
  "print_ttys lib0 Map.empty [dev_A, dev_B] (args0\<lparr>exclude_serial := Some [''AAA'']\<rparr>) =
     \<lparr>stdout =
        ''path         | driver  | vendor | model | model_db | serial | ctime    | iface_num'' @ [CHR 0x0A] @
        ''-------------|---------|--------|-------|----------|--------|----------|----------'' @ [CHR 0x0A] @
        ''/dev/ttyACM1 | cdc_acm | ACME   | Board | None     | BBB    | 00:03:20 | 1        '' @ [CHR 0x0A],
      stderr = Quiet, exit_code = 0, queried = True\<rparr>"
proof -
  let ?a = "args0\<lparr>exclude_serial := Some [''AAA'']\<rparr>"
  have pa: "parse_args Map.empty ?a = Inr ?a"
    using check_format_args0 by (simp add: parse_args_def)
  have g: "generate_filters lib0 ?a = Inr []"
    by (simp add: generate_filters_def append_filter_def and_then_def args0_def)
  have f: "final_ttys lib0 [dev_A, dev_B] ?a = Inr [tty_B]"
    unfolding final_ttys_def g using collect_example
    by (simp add: and_then_def select_most_recent_def args0_def)
  have p: "fst (print_results lib0 ?a [tty_B]) =
     (''path         | driver  | vendor | model | model_db | serial | ctime    | iface_num'' @ [CHR 0x0A] @
      ''-------------|---------|--------|-------|----------|--------|----------|----------'' @ [CHR 0x0A] @
      ''/dev/ttyACM1 | cdc_acm | ACME   | Board | None     | BBB    | 00:03:20 | 1        '' @ [CHR 0x0A],
      None)"
    by (simp add: print_results_def args0_def getitem_def localtime_HMS_def lib0_def
      hms_utc_200 tty_B_def print_table_def table_headers_def
      enumerate_eq_zip py_str_def py_len_def then_write_def pad_def eval_nat_numeral)
  from print_ttys_final [OF pa f] p show ?thesis by simp
qed

end
